theory Spec2Isabelle
  imports Main "HOL-Library.Sublist"
begin

section \<open>Text\<close>

text \<open>
  JavaScript strings are modelled as HOL strings, one \<^typ>\<open>char\<close> per code unit.
  The character classes and the case mapping are those of JavaScript on the ASCII
  range: \<open>\w\<close> of a regular expression without the \<open>u\<close> and \<open>i\<close> flags is
  \<open>[A-Za-z0-9_]\<close>; code units outside ASCII are no word characters, and the model
  leaves them unchanged under \<open>toUpperCase\<close> and \<open>toLowerCase\<close>.
\<close>

definition charCode :: "char \<Rightarrow> nat" where
  "charCode c = of_char c"

definition is_lower :: "char \<Rightarrow> bool" where
  "is_lower c = (97 \<le> charCode c \<and> charCode c \<le> 122)"

definition is_upper :: "char \<Rightarrow> bool" where
  "is_upper c = (65 \<le> charCode c \<and> charCode c \<le> 90)"

definition is_digit :: "char \<Rightarrow> bool" where
  "is_digit c = (48 \<le> charCode c \<and> charCode c \<le> 57)"

definition is_alpha :: "char \<Rightarrow> bool" where
  "is_alpha c = (is_lower c \<or> is_upper c)"

definition is_word :: "char \<Rightarrow> bool" where
  "is_word c = (is_alpha c \<or> is_digit c \<or> c = CHR ''_'')"

definition toUpperCase_char :: "char \<Rightarrow> char" where
  "toUpperCase_char c = (if is_lower c then char_of (charCode c - 32) else c)"

definition toLowerCase_char :: "char \<Rightarrow> char" where
  "toLowerCase_char c = (if is_upper c then char_of (charCode c + 32) else c)"

definition toLowerCase :: "string \<Rightarrow> string" where
  "toLowerCase s = map toLowerCase_char s"

text \<open>\<open>target.charAt(0).toUpperCase() + target.slice(1)\<close>, guarded by \<open>target.length > 0\<close>.\<close>

definition capitalize_first :: "string \<Rightarrow> string" where
  "capitalize_first target =
     (case target of [] \<Rightarrow> [] | c # cs \<Rightarrow> toUpperCase_char c # cs)"

text \<open>
  \<open>target.replace(/\bi\b/g, 'I')\<close>. The scan carries whether the code unit before the
  current one is a word character; a match is an \<open>i\<close> with a word boundary on both
  sides. Matches are one code unit long, so they never overlap.
\<close>

fun replace_i :: "bool \<Rightarrow> string \<Rightarrow> string" where
  "replace_i prev [] = []"
| "replace_i prev (c # cs) =
     (if c = CHR ''i'' \<and> \<not> prev \<and> (case cs of [] \<Rightarrow> True | d # _ \<Rightarrow> \<not> is_word d)
      then CHR ''I'' else c) # replace_i (is_word c) cs"

text \<open>The post-processing both services apply to a segment's target (rules 1 and 2).\<close>

definition normalize :: "string \<Rightarrow> string" where
  "normalize target = replace_i False (capitalize_first target)"


definition is_space :: "char \<Rightarrow> bool" where
  "is_space c = (charCode c \<in> {9, 10, 11, 12, 13, 32})"

text \<open>\<open>String.prototype.trim\<close>, with the white space of the ASCII range.\<close>

definition trim :: "string \<Rightarrow> string" where
  "trim s = rev (dropWhile is_space (rev (dropWhile is_space s)))"

text \<open>\<open>s.includes(sub)\<close>.\<close>

fun str_includes :: "string \<Rightarrow> string \<Rightarrow> bool" where
  "str_includes [] sub = (sub = [])"
| "str_includes (c # cs) sub = (prefix sub (c # cs) \<or> str_includes cs sub)"

section \<open>JavaScript values and errors\<close>

datatype jsval = Undefined | Num int | Str string

fun truthy :: "jsval \<Rightarrow> bool" where
  "truthy Undefined = False"
| "truthy (Num n) = (n \<noteq> 0)"
| "truthy (Str s) = (s \<noteq> [])"

text \<open>\<open>a || b\<close>.\<close>

definition js_or :: "jsval \<Rightarrow> jsval \<Rightarrow> jsval" where
  "js_or a b = (if truthy a then a else b)"

text \<open>
  A thrown value, with the properties the services and the orchestrator read:
  \<open>error.status\<close>, \<open>error.code\<close>, \<open>error.error.code\<close>, \<open>error.type\<close>,
  \<open>error.message\<close> (the empty string when there is none: the services read it through
  \<open>||\<close> only), what \<open>JSON.stringify(error)\<close> gives, and whether it is an
  \<open>instanceof Error\<close>.
\<close>

record js_error =
  err_status :: jsval
  err_code :: jsval
  err_error_code :: jsval
  err_type :: jsval
  err_message :: string
  err_json :: string
  err_is_Error :: bool

text \<open>\<open>new Error(msg)\<close>: the message is no enumerable property, so the JSON form is \<open>{}\<close>.\<close>

definition new_Error :: "string \<Rightarrow> js_error" where
  "new_Error msg =
     \<lparr>err_status = Undefined, err_code = Undefined, err_error_code = Undefined,
      err_type = Undefined, err_message = msg, err_json = ''{}'', err_is_Error = True\<rparr>"

text \<open>A \<open>TypeError\<close> raised by the engine; the messages are worded as V8 words them.\<close>

definition new_TypeError :: "string \<Rightarrow> js_error" where
  "new_TypeError msg = new_Error msg"

definition isQuotaError :: "js_error \<Rightarrow> bool" where
  "isQuotaError error =
     (let errorCode = js_or (js_or (err_status error) (err_code error)) (err_error_code error);
          errorMessage = (if err_message error \<noteq> [] then err_message error else err_json error)
      in errorCode = Num 429
         \<or> str_includes errorMessage ''429''
         \<or> str_includes (toLowerCase errorMessage) ''quota''
         \<or> str_includes (toLowerCase errorMessage) ''resource_exhausted'')"

section \<open>Types of the application\<close>

datatype SourceLanguage = KOREAN | SPANISH | AUTO

text \<open>The string value of each member of the enum.\<close>

fun SourceLanguage_value :: "SourceLanguage \<Rightarrow> string" where
  "SourceLanguage_value KOREAN = ''Korean''"
| "SourceLanguage_value SPANISH = ''Spanish''"
| "SourceLanguage_value AUTO = ''Auto-Detect''"

datatype ModelProvider = GEMINI | CLAUDE

datatype AppState = IDLE | ANALYZING | SUCCESS | ERROR

text \<open>
  A parsed JSON value. An object is the list of its properties, each key once. Numbers
  matter to the code only through being zero or not, and are kept as integers.
\<close>

datatype json =
    JNull
  | JBool bool
  | JNumber int
  | JString string
  | JArray "json list"
  | JObject "(string \<times> json) list"

text \<open>
  At run time the fields of a result hold whatever the provider's JSON held: a segment's
  \<open>source\<close> is copied unchecked (\<open>None\<close> is \<open>undefined\<close>), and
  \<open>detectedLanguage\<close> is any truthy JSON value or the fallback string.
\<close>

record TranslationSegment =
  source :: "json option"
  target :: string

record TranslationResult =
  detectedLanguage :: json
  segments :: "TranslationSegment list"

section \<open>The platform\<close>

text \<open>
  What the code calls and the repository does not hold: the two remote calls, each a
  function of the request and a state of the outside world \<open>'n\<close>; \<open>JSON.parse\<close>;
  and the two variables of \<open>process.env\<close>. A key is \<open>None\<close> when \<open>undefined\<close>.
  A request carries what the code puts into it; the prompts are functions of the
  language (and, for the text-in call, of the extracted text), which stand for them.
\<close>

datatype request =
    OcrRequest string "string option" string string
  | TranslateRequest string "string option" string string SourceLanguage
  | ClaudeRequest "string option" string SourceLanguage string

datatype content_block = TextBlock string | OtherBlock

record 'n platform =
  generateContent :: "request \<Rightarrow> 'n \<Rightarrow> (js_error + string option) \<times> 'n"
  messages_create :: "request \<Rightarrow> 'n \<Rightarrow> (js_error + content_block list) \<times> 'n"
  JSON_parse :: "string \<Rightarrow> js_error + json"
  env_API_KEY :: "string option"
  env_CLAUDE_API_KEY :: "string option"

text \<open>
  The state a run threads: the outside world and the log of what the run did to it,
  one entry per request sent and per backoff sleep (in milliseconds).
\<close>

datatype event = Sent request | Slept int

record 'n world =
  net :: 'n
  log :: "event list"

definition send_generateContent ::
  "'n platform \<Rightarrow> request \<Rightarrow> 'n world \<Rightarrow> (js_error + string option) \<times> 'n world" where
  "send_generateContent P req w =
     (case generateContent P req (net w) of
        (r, n') \<Rightarrow> (r, \<lparr>net = n', log = log w @ [Sent req]\<rparr>))"

definition send_messages_create ::
  "'n platform \<Rightarrow> request \<Rightarrow> 'n world \<Rightarrow> (js_error + content_block list) \<times> 'n world" where
  "send_messages_create P req w =
     (case messages_create P req (net w) of
        (r, n') \<Rightarrow> (r, \<lparr>net = n', log = log w @ [Sent req]\<rparr>))"

text \<open>\<open>wait(ms)\<close>: the run is suspended for \<open>ms\<close> milliseconds.\<close>

definition wait :: "int \<Rightarrow> 'n world \<Rightarrow> 'n world" where
  "wait ms w = w\<lparr>log := log w @ [Slept ms]\<rparr>"

text \<open>A key is falsy when \<open>undefined\<close> or empty.\<close>

definition key_truthy :: "string option \<Rightarrow> bool" where
  "key_truthy k = (case k of None \<Rightarrow> False | Some s \<Rightarrow> s \<noteq> [])"

definition key_or :: "string option \<Rightarrow> string option \<Rightarrow> string option" where
  "key_or a b = (if key_truthy a then a else b)"

section \<open>geminiService.ts\<close>

definition OCR_MODEL :: string where
  "OCR_MODEL = ''gemini-3-flash-preview''"

definition TRANSLATION_MODEL_PRO :: string where
  "TRANSLATION_MODEL_PRO = ''gemini-3-pro-preview''"

definition TRANSLATION_MODEL_FLASH :: string where
  "TRANSLATION_MODEL_FLASH = ''gemini-3-flash-preview''"

text \<open>
  \<open>getAiClient\<close>: a client is the key it was built with, the caller's or else the
  environment's; with neither, the client is built all the same, with no key.
\<close>

definition getAiClient :: "'n platform \<Rightarrow> string option \<Rightarrow> string option" where
  "getAiClient P apiKey = key_or apiKey (env_API_KEY P)"

text \<open>
  \<open>retryWithBackoff\<close>. The numbers are JavaScript numbers; on the integers the code
  is called with, \<open>retries - 1\<close> and \<open>delay * 2\<close> are exact.
\<close>

function retryWithBackoff ::
  "('n world \<Rightarrow> (js_error + 'a) \<times> 'n world) \<Rightarrow> int \<Rightarrow> int \<Rightarrow> 'n world
     \<Rightarrow> (js_error + 'a) \<times> 'n world" where
  "retryWithBackoff operation retries delay w =
     (case operation w of
        (Inr v, w') \<Rightarrow> (Inr v, w')
      | (Inl error, w') \<Rightarrow>
          if isQuotaError error \<and> retries > 0
          then retryWithBackoff operation (retries - 1) (delay * 2) (wait delay w')
          else (Inl error, w'))"
  by pat_completeness auto
termination
  by (relation "measure (\<lambda>(operation, retries, delay, w). nat retries)") auto

declare retryWithBackoff.simps [simp del]

definition extractTextFromImage ::
  "'n platform \<Rightarrow> string \<Rightarrow> string \<Rightarrow> string option \<Rightarrow> 'n world
     \<Rightarrow> (js_error + string) \<times> 'n world" where
  "extractTextFromImage P base64Image mimeType apiKey w =
     (let ai = getAiClient P apiKey in
      case retryWithBackoff
             (send_generateContent P (OcrRequest OCR_MODEL ai mimeType base64Image)) 3 2000 w of
        (Inr response_text, w') \<Rightarrow>
          (case response_text of
             None \<Rightarrow> (Inr [], w')
           | Some text \<Rightarrow> if text = [] then (Inr [], w') else (Inr (trim text), w'))
      | (Inl error, w') \<Rightarrow>
          if isQuotaError error
          then (Inl (new_Error ''Gemini API Quota Exceeded (OCR). Please check your API key.''), w')
          else (Inl (new_Error ''Failed to extract text from image using Gemini.''), w'))"


subsection \<open>Reading the provider's JSON\<close>

text \<open>
  \<open>value.name\<close> on a parsed JSON value, for the names the services read (\<open>segments\<close>,
  \<open>detectedLanguage\<close>, \<open>target\<close>, \<open>source\<close>): reading from \<open>null\<close> throws, an
  object gives its property or \<open>undefined\<close>, any other value gives \<open>undefined\<close>.
\<close>

fun get_prop :: "string \<Rightarrow> json \<Rightarrow> js_error + json option" where
  "get_prop name JNull =
     Inl (new_TypeError (''Cannot read properties of null (reading '' @ [CHR 0x27] @ name
                           @ [CHR 0x27] @ '')''))"
| "get_prop name (JObject kvs) = Inr (map_of kvs name)"
| "get_prop name v = Inr None"

fun json_truthy :: "json \<Rightarrow> bool" where
  "json_truthy JNull = False"
| "json_truthy (JBool b) = b"
| "json_truthy (JNumber n) = (n \<noteq> 0)"
| "json_truthy (JString s) = (s \<noteq> [])"
| "json_truthy v = True"

text \<open>\<open>value || fallback\<close> where \<open>value\<close> may be \<open>undefined\<close>.\<close>

definition json_or :: "json option \<Rightarrow> json \<Rightarrow> json" where
  "json_or v fallback =
     (case v of None \<Rightarrow> fallback | Some x \<Rightarrow> if json_truthy x then x else fallback)"

text \<open>
  The callback of \<open>segments.map\<close>, the same in both services. A truthy target that is
  no string has no \<open>replace\<close> (and no \<open>charAt\<close>): the callback throws a \<open>TypeError\<close>,
  for which the model keeps one message.
\<close>

definition map_segment :: "json \<Rightarrow> js_error + TranslationSegment" where
  "map_segment seg =
     (case get_prop ''target'' seg of
        Inl e \<Rightarrow> Inl e
      | Inr t \<Rightarrow>
          (case json_or t (JString []) of
             JString s \<Rightarrow>
               (case get_prop ''source'' seg of
                  Inl e \<Rightarrow> Inl e
                | Inr src \<Rightarrow> Inr \<lparr>source = src, target = normalize s\<rparr>)
           | _ \<Rightarrow> Inl (new_TypeError ''target.replace is not a function'')))"

text \<open>\<open>Array.prototype.map\<close> with that callback: the first throw ends it.\<close>

fun map_segments :: "json list \<Rightarrow> js_error + TranslationSegment list" where
  "map_segments [] = Inr []"
| "map_segments (seg # rest) =
     (case map_segment seg of
        Inl e \<Rightarrow> Inl e
      | Inr s \<Rightarrow> (case map_segments rest of Inl e \<Rightarrow> Inl e | Inr ss \<Rightarrow> Inr (s # ss)))"

text \<open>\<open>Array.isArray(parsed.segments) ? parsed.segments : []\<close>.\<close>

definition segments_array :: "json option \<Rightarrow> json list" where
  "segments_array v = (case v of Some (JArray xs) \<Rightarrow> xs | _ \<Rightarrow> [])"

definition newline :: char where
  "newline = CHR 0x0A"

text \<open>The text after, and the text before, the first occurrence of a pattern.\<close>

fun after_first :: "string \<Rightarrow> string \<Rightarrow> string option" where
  "after_first pat [] = (if pat = [] then Some [] else None)"
| "after_first pat (c # cs) =
     (if prefix pat (c # cs) then Some (drop (length pat) (c # cs)) else after_first pat cs)"

fun before_first :: "string \<Rightarrow> string \<Rightarrow> string option" where
  "before_first pat [] = (if pat = [] then Some [] else None)"
| "before_first pat (c # cs) =
     (if prefix pat (c # cs) then Some [] else map_option ((#) c) (before_first pat cs))"

text \<open>
  Group 1 of \<open>text.match(/```json\n([\s\S]*?)\n```/)\<close>: the lazy group ends at the first
  closing fence after the first opening one.
\<close>

definition match_fence :: "string \<Rightarrow> string option" where
  "match_fence text =
     (case after_first (''```json'' @ [newline]) text of
        None \<Rightarrow> None
      | Some r \<Rightarrow> before_first (newline # ''```'') r)"

subsection \<open>translateImageContent\<close>

text \<open>Lines 212 to 223: the direct parse, then the fenced block.\<close>

definition gemini_parse :: "'n platform \<Rightarrow> string \<Rightarrow> js_error + json" where
  "gemini_parse P text =
     (case JSON_parse P text of
        Inr parsed \<Rightarrow> Inr parsed
      | Inl e \<Rightarrow>
          (case match_fence text of
             Some m \<Rightarrow> JSON_parse P m
           | None \<Rightarrow> Inl (new_Error ''Invalid JSON response from Gemini'')))"

text \<open>Lines 225 to 251: the segments, then the detected language.\<close>

definition gemini_result :: "SourceLanguage \<Rightarrow> json \<Rightarrow> js_error + TranslationResult" where
  "gemini_result sourceLanguage parsed =
     (case get_prop ''segments'' parsed of
        Inl e \<Rightarrow> Inl e
      | Inr segs \<Rightarrow>
          (case map_segments (segments_array segs) of
             Inl e \<Rightarrow> Inl e
           | Inr segs' \<Rightarrow>
               (case get_prop ''detectedLanguage'' parsed of
                  Inl e \<Rightarrow> Inl e
                | Inr d \<Rightarrow>
                    Inr \<lparr>detectedLanguage =
                           json_or d (JString (SourceLanguage_value sourceLanguage)),
                         segments = segs'\<rparr>)))"

text \<open>The inner function \<open>executeTranslation\<close>, with the variables it closes over.\<close>

definition executeTranslation ::
  "'n platform \<Rightarrow> string \<Rightarrow> string \<Rightarrow> SourceLanguage \<Rightarrow> string \<Rightarrow> string option
     \<Rightarrow> 'n world \<Rightarrow> (js_error + string option) \<times> 'n world" where
  "executeTranslation P base64Image mimeType sourceLanguage model client =
     retryWithBackoff
       (send_generateContent P (TranslateRequest model client mimeType base64Image sourceLanguage))
       3 2000"

text \<open>Lines 197 to 207: the premium model first, the standard one on a quota error.\<close>

definition translate_pro_then_flash ::
  "'n platform \<Rightarrow> string \<Rightarrow> string \<Rightarrow> SourceLanguage \<Rightarrow> string option \<Rightarrow> string option
     \<Rightarrow> 'n world \<Rightarrow> (js_error + string option) \<times> 'n world" where
  "translate_pro_then_flash P base64Image mimeType sourceLanguage apiKey proApiKey w =
     (let flashClient = getAiClient P apiKey;
          proClient = getAiClient P (key_or proApiKey apiKey)
      in case executeTranslation P base64Image mimeType sourceLanguage
                TRANSLATION_MODEL_PRO proClient w of
           (Inr response, w') \<Rightarrow> (Inr response, w')
         | (Inl error, w') \<Rightarrow>
             if isQuotaError error
             then executeTranslation P base64Image mimeType sourceLanguage
                    TRANSLATION_MODEL_FLASH flashClient w'
             else (Inl error, w'))"

definition translateImageContent ::
  "'n platform \<Rightarrow> string \<Rightarrow> string \<Rightarrow> SourceLanguage \<Rightarrow> string option \<Rightarrow> string option
     \<Rightarrow> 'n world \<Rightarrow> (js_error + TranslationResult) \<times> 'n world" where
  "translateImageContent P base64Image mimeType sourceLanguage apiKey proApiKey w =
     (case translate_pro_then_flash P base64Image mimeType sourceLanguage apiKey proApiKey w of
        (r, w') \<Rightarrow>
          (let body =
             (case r of
                Inl e \<Rightarrow> Inl e
              | Inr response \<Rightarrow>
                  (case response of
                     None \<Rightarrow> Inl (new_Error ''No response from Gemini'')
                   | Some text \<Rightarrow>
                       if text = [] then Inl (new_Error ''No response from Gemini'')
                       else (case gemini_parse P text of
                               Inl e \<Rightarrow> Inl e
                             | Inr parsed \<Rightarrow> gemini_result sourceLanguage parsed)))
           in case body of
                Inr res \<Rightarrow> (Inr res, w')
              | Inl error \<Rightarrow>
                  if isQuotaError error
                  then (Inl (new_Error
                          ''Gemini API Quota Exceeded. Please check your API key in Settings.''), w')
                  else (Inl (new_Error ''Failed to process image. Please try again.''), w')))"

section \<open>claudeService.ts\<close>

definition indexOf :: "char \<Rightarrow> string \<Rightarrow> nat option" where
  "indexOf c s = (if c \<in> set s then Some (length (takeWhile (\<lambda>x. x \<noteq> c) s)) else None)"

definition lastIndexOf :: "char \<Rightarrow> string \<Rightarrow> nat option" where
  "lastIndexOf c s =
     (if c \<in> set s then Some (length s - 1 - length (takeWhile (\<lambda>x. x \<noteq> c) (rev s)))
      else None)"

text \<open>
  \<open>text.replace(/```json\n?|\n?```/g, "")\<close>: at each position the first alternative
  is tried first, and \<open>\n?\<close> takes the newline when there is one.
\<close>

function strip_fences :: "string \<Rightarrow> string" where
  "strip_fences [] = []"
| "strip_fences (c # cs) =
     (if prefix (''```json'' @ [newline]) (c # cs) then strip_fences (drop 8 (c # cs))
      else if prefix ''```json'' (c # cs) then strip_fences (drop 7 (c # cs))
      else if prefix (newline # ''```'') (c # cs) then strip_fences (drop 4 (c # cs))
      else if prefix ''```'' (c # cs) then strip_fences (drop 3 (c # cs))
      else c # strip_fences cs)"
  by pat_completeness auto
termination
  by (relation "measure length") auto

text \<open>Lines 408 to 417: the text handed to \<open>JSON.parse\<close>.\<close>

definition claude_json_text :: "string \<Rightarrow> string" where
  "claude_json_text text =
     (case (indexOf CHR ''{'' text, lastIndexOf CHR ''}'' text) of
        (Some firstBrace, Some lastBrace) \<Rightarrow>
          if lastBrace > firstBrace
          then take (lastBrace + 1 - firstBrace) (drop firstBrace text)
          else trim (strip_fences text)
      | _ \<Rightarrow> trim (strip_fences text))"

text \<open>Lines 428 to 451.\<close>

definition claude_result :: "SourceLanguage \<Rightarrow> json \<Rightarrow> js_error + TranslationResult" where
  "claude_result sourceLanguage parsed =
     (case get_prop ''segments'' parsed of
        Inl e \<Rightarrow> Inl e
      | Inr segs \<Rightarrow>
          (case map_segments (segments_array segs) of
             Inl e \<Rightarrow> Inl e
           | Inr segs' \<Rightarrow>
               (case get_prop ''detectedLanguage'' parsed of
                  Inl e \<Rightarrow> Inl e
                | Inr d \<Rightarrow>
                    Inr \<lparr>detectedLanguage =
                           json_or d (JString (if sourceLanguage = AUTO then ''Unknown''
                                               else SourceLanguage_value sourceLanguage)),
                         segments = segs'\<rparr>)))"

text \<open>Lines 453 to 471: what the outer \<open>catch\<close> throws for what it caught.\<close>

definition claude_catch :: "string \<Rightarrow> js_error \<Rightarrow> js_error" where
  "claude_catch modelId error =
     (if err_status error = Num 401
      then new_Error ''Invalid Claude API Key. Please check your key in Settings.''
      else if err_status error = Num 404
      then new_Error (''Model '' @ modelId @ '' not found. Please select a valid model in Settings.'')
      else if err_type error = Str ''overloaded_error''
      then new_Error ''Claude API is currently overloaded. Please try again in a moment.''
      else if str_includes (err_message error) ''Failed to parse response''
      then new_Error ''Translation failed due to invalid response format.''
      else new_Error (if err_message error \<noteq> [] then err_message error
                      else ''Failed to translate text with Claude.''))"

text \<open>Lines 387 to 451, the body of the \<open>try\<close> after the request returned.\<close>

definition claude_body ::
  "'n platform \<Rightarrow> SourceLanguage \<Rightarrow> js_error + content_block list
     \<Rightarrow> js_error + TranslationResult" where
  "claude_body P sourceLanguage r =
     (case r of
        Inl e \<Rightarrow> Inl e
      | Inr content \<Rightarrow>
          (case find (\<lambda>c. case c of TextBlock _ \<Rightarrow> True | OtherBlock \<Rightarrow> False) content of
             Some (TextBlock text) \<Rightarrow>
               (case JSON_parse P (claude_json_text text) of
                  Inl parseError \<Rightarrow>
                    Inl (new_Error ''Failed to parse response. The model returned invalid JSON.'')
                | Inr parsed \<Rightarrow> claude_result sourceLanguage parsed)
           | _ \<Rightarrow> Inl (new_Error ''No text response from Claude'')))"

definition translateImageContentWithClaude ::
  "'n platform \<Rightarrow> string \<Rightarrow> string \<Rightarrow> SourceLanguage \<Rightarrow> string option \<Rightarrow> string
     \<Rightarrow> string option \<Rightarrow> 'n world \<Rightarrow> (js_error + TranslationResult) \<times> 'n world" where
  "translateImageContentWithClaude P base64Image mimeType sourceLanguage apiKey modelId
       geminiApiKey w =
     (let finalApiKey = key_or apiKey (env_CLAUDE_API_KEY P) in
      if \<not> key_truthy finalApiKey
      then (Inl (new_Error ''Claude API Key is missing. Please add it in Settings.''), w)
      else
        case extractTextFromImage P base64Image mimeType geminiApiKey w of
          (Inl ocrError, w1) \<Rightarrow>
            (Inl (new_Error
                    (if err_message ocrError \<noteq> [] then err_message ocrError
                     else ''Gemini failed to extract text from the image. Cannot proceed with Claude translation.'')),
             w1)
        | (Inr extractedText, w1) \<Rightarrow>
            if extractedText = [] \<or> length (trim extractedText) = 0
            then (Inr \<lparr>detectedLanguage = JString ''Unknown'', segments = []\<rparr>, w1)
            else
              case send_messages_create P
                     (ClaudeRequest finalApiKey modelId sourceLanguage extractedText) w1 of
                (r, w2) \<Rightarrow>
                  (case claude_body P sourceLanguage r of
                     Inr res \<Rightarrow> (Inr res, w2)
                   | Inl error \<Rightarrow> (Inl (claude_catch modelId error), w2)))"


section \<open>App.tsx\<close>

text \<open>
  A file as \<open>processFile\<close> resolved it, and an item of the batch. The \<open>File\<close> object
  is kept as its name; the orchestration reads the identity, the payload and the three
  lifecycle fields only. \<open>None\<close> is \<open>null\<close>.
\<close>

record ProcessedImage =
  file_name :: string
  previewUrl :: string
  base64Data :: string
  mimeType :: string

record BatchItem =
  item_id :: string
  item_file :: string
  item_previewUrl :: string
  item_base64Data :: string
  item_mimeType :: string
  status :: AppState
  result :: "TranslationResult option"
  error :: "string option"

text \<open>The state variables of the component.\<close>

record App =
  items :: "BatchItem list"
  sourceLang :: SourceLanguage
  modelProvider :: ModelProvider
  isSettingsOpen :: bool
  claudeApiKey :: string
  claudeModelId :: string
  geminiApiKey :: string
  geminiProApiKey :: string

text \<open>\<open>prev.map(i => i.id === id ? f(i) : i)\<close>, the updater of every \<open>setItems\<close> of a run.\<close>

definition updateItem :: "string \<Rightarrow> (BatchItem \<Rightarrow> BatchItem) \<Rightarrow> BatchItem list \<Rightarrow> BatchItem list" where
  "updateItem i f prev = map (\<lambda>x. if item_id x = i then f x else x) prev"

definition missing_claude_message :: string where
  "missing_claude_message = ''Missing Claude API Key. Click the settings gear to add your key.''"

definition missing_gemini_message :: string where
  "missing_gemini_message =
     ''Missing Gemini API Key (Required for OCR). Click the settings gear to add your key.''"

text \<open>
  \<open>translateItem\<close> up to its first \<open>await\<close> (lines 88 to 116): the two checks, then
  the move to \<open>ANALYZING\<close>. The flag tells whether the run goes on to the request.
\<close>

definition translateItem_start ::
  "'n platform \<Rightarrow> BatchItem \<Rightarrow> ModelProvider \<Rightarrow> App \<Rightarrow> App \<times> bool" where
  "translateItem_start P item provider a =
     (if provider = CLAUDE \<and> claudeApiKey a = [] \<and> \<not> key_truthy (env_CLAUDE_API_KEY P)
      then (a\<lparr>items := updateItem (item_id item)
                   (\<lambda>i. i\<lparr>status := ERROR, error := Some missing_claude_message\<rparr>) (items a),
              isSettingsOpen := True\<rparr>, False)
      else
        let hasGeminiKey = (geminiApiKey a \<noteq> [] \<or> key_truthy (env_API_KEY P)) in
        if \<not> hasGeminiKey
        then (a\<lparr>items := updateItem (item_id item)
                     (\<lambda>i. i\<lparr>status := ERROR, error := Some missing_gemini_message\<rparr>) (items a),
                isSettingsOpen := True\<rparr>, False)
        else (a\<lparr>items := updateItem (item_id item)
                     (\<lambda>i. i\<lparr>status := ANALYZING, error := None\<rparr>) (items a)\<rparr>, True))"

text \<open>The awaited call (lines 119 to 137), with the keys the closure holds.\<close>

definition translateItem_request ::
  "'n platform \<Rightarrow> BatchItem \<Rightarrow> SourceLanguage \<Rightarrow> ModelProvider \<Rightarrow> App \<Rightarrow> 'n world
     \<Rightarrow> (js_error + TranslationResult) \<times> 'n world" where
  "translateItem_request P item lang provider a w =
     (if provider = CLAUDE
      then translateImageContentWithClaude P (item_base64Data item) (item_mimeType item) lang
             (Some (claudeApiKey a)) (claudeModelId a) (Some (geminiApiKey a)) w
      else translateImageContent P (item_base64Data item) (item_mimeType item) lang
             (Some (geminiApiKey a)) (Some (geminiProApiKey a)) w)"

text \<open>What the run does when the call has settled (lines 139 to 150).\<close>

definition translateItem_finish ::
  "string \<Rightarrow> js_error + TranslationResult \<Rightarrow> App \<Rightarrow> App" where
  "translateItem_finish i outcome a =
     (case outcome of
        Inr translation \<Rightarrow>
          a\<lparr>items := updateItem i (\<lambda>x. x\<lparr>status := SUCCESS, result := Some translation\<rparr>) (items a)\<rparr>
      | Inl e \<Rightarrow>
          a\<lparr>items := updateItem i
                 (\<lambda>x. x\<lparr>status := ERROR,
                         error := Some (if err_is_Error e then err_message e
                                        else ''Translation failed'')\<rparr>) (items a)\<rparr>)"

text \<open>One run of \<open>translateItem\<close> from its call to its end, with nothing in between.\<close>

definition translateItem ::
  "'n platform \<Rightarrow> BatchItem \<Rightarrow> SourceLanguage \<Rightarrow> ModelProvider \<Rightarrow> App \<times> 'n world
     \<Rightarrow> App \<times> 'n world" where
  "translateItem P item lang provider s =
     (case s of
        (a, w) \<Rightarrow>
          (case translateItem_start P item provider a of
             (a', False) \<Rightarrow> (a', w)
           | (a', True) \<Rightarrow>
               (case translateItem_request P item lang provider a w of
                  (outcome, w') \<Rightarrow> (translateItem_finish (item_id item) outcome a', w'))))"

text \<open>
  \<open>handleFileChange\<close> up to the point where every new run waits for its request. The
  argument lists the files \<open>processFile\<close> resolved, each with the identifier
  \<open>crypto.randomUUID()\<close> gave it. The result is the new state and the items whose
  request is under way.
\<close>

definition new_item :: "string \<times> ProcessedImage \<Rightarrow> BatchItem" where
  "new_item f =
     \<lparr>item_id = fst f, item_file = file_name (snd f), item_previewUrl = previewUrl (snd f),
      item_base64Data = base64Data (snd f), item_mimeType = mimeType (snd f),
      status = IDLE, result = None, error = None\<rparr>"

fun start_all ::
  "'n platform \<Rightarrow> ModelProvider \<Rightarrow> BatchItem list \<Rightarrow> App \<Rightarrow> App \<times> BatchItem list" where
  "start_all P provider [] a = (a, [])"
| "start_all P provider (item # rest) a =
     (case translateItem_start P item provider a of
        (a', started) \<Rightarrow>
          (case start_all P provider rest a' of
             (a'', d) \<Rightarrow> (a'', if started then item # d else d)))"

definition handleFileChange ::
  "'n platform \<Rightarrow> (string \<times> ProcessedImage) list \<Rightarrow> App \<Rightarrow> App \<times> BatchItem list" where
  "handleFileChange P files a =
     (let newItems = map new_item files
      in start_all P (modelProvider a) newItems (a\<lparr>items := items a @ newItems\<rparr>))"

definition handleRemove :: "string \<Rightarrow> App \<Rightarrow> App" where
  "handleRemove i a = a\<lparr>items := filter (\<lambda>x. item_id x \<noteq> i) (items a)\<rparr>"

definition handleClearAll :: "App \<Rightarrow> App" where
  "handleClearAll a = a\<lparr>items := []\<rparr>"

definition handleSaveSettings :: "string \<Rightarrow> string \<Rightarrow> string \<Rightarrow> string \<Rightarrow> App \<Rightarrow> App" where
  "handleSaveSettings cKey cModelId gKey gProKey a =
     a\<lparr>claudeApiKey := cKey, claudeModelId := cModelId, geminiApiKey := gKey,
       geminiProApiKey := gProKey\<rparr>"

text \<open>
  \<open>handleRetry\<close>: the first item with that identifier, if any, is started again.
\<close>

definition handleRetry :: "'n platform \<Rightarrow> string \<Rightarrow> App \<Rightarrow> App \<times> BatchItem list" where
  "handleRetry P i a =
     (case find (\<lambda>x. item_id x = i) (items a) of
        None \<Rightarrow> (a, [])
      | Some item \<Rightarrow>
          (case translateItem_start P item (modelProvider a) a of
             (a', started) \<Rightarrow> (a', if started then [item] else [])))"

subsection \<open>The component as a transition system\<close>

text \<open>
  The runs of a batch interleave: a configuration is the state of the component and
  the identifiers of the runs that wait for their request. An action is an event of
  the user interface or a request settling, with any outcome. The guards are those of
  the rendered page: \<open>Retry\<close> is a button of an item in \<open>ERROR\<close> only (lines 430 to
  438), and \<open>crypto.randomUUID()\<close> gives identifiers that are new. Every other action
  is taken as possible at any time, also where the page disables its button while an
  item is in \<open>ANALYZING\<close>.
\<close>

record config =
  app :: App
  inflight :: "string list"

datatype action =
    AddFiles "(string \<times> ProcessedImage) list"
  | Retry string
  | Settle string "js_error + TranslationResult"
  | Remove string
  | ClearAll
  | SetSourceLang SourceLanguage
  | SetModelProvider ModelProvider
  | SaveSettings string string string string
  | SetSettingsOpen bool

fun step :: "'n platform \<Rightarrow> action \<Rightarrow> config \<Rightarrow> config option" where
  "step P (AddFiles files) c =
     (if distinct (map fst files)
         \<and> (\<forall>i \<in> set (map fst files). i \<notin> set (map item_id (items (app c))) \<and> i \<notin> set (inflight c))
      then (case handleFileChange P files (app c) of
              (a', d) \<Rightarrow> Some \<lparr>app = a', inflight = inflight c @ map item_id d\<rparr>)
      else None)"
| "step P (Retry i) c =
     (if (\<exists>x \<in> set (items (app c)). item_id x = i \<and> status x = ERROR)
      then (case handleRetry P i (app c) of
              (a', d) \<Rightarrow> Some \<lparr>app = a', inflight = inflight c @ map item_id d\<rparr>)
      else None)"
| "step P (Settle i outcome) c =
     (if i \<in> set (inflight c)
      then Some \<lparr>app = translateItem_finish i outcome (app c), inflight = remove1 i (inflight c)\<rparr>
      else None)"
| "step P (Remove i) c = Some (c\<lparr>app := handleRemove i (app c)\<rparr>)"
| "step P ClearAll c = Some (c\<lparr>app := handleClearAll (app c)\<rparr>)"
| "step P (SetSourceLang l) c = Some (c\<lparr>app := (app c)\<lparr>sourceLang := l\<rparr>\<rparr>)"
| "step P (SetModelProvider m) c = Some (c\<lparr>app := (app c)\<lparr>modelProvider := m\<rparr>\<rparr>)"
| "step P (SaveSettings cKey cModelId gKey gProKey) c =
     Some (c\<lparr>app := handleSaveSettings cKey cModelId gKey gProKey (app c)\<rparr>)"
| "step P (SetSettingsOpen b) c = Some (c\<lparr>app := (app c)\<lparr>isSettingsOpen := b\<rparr>\<rparr>)"

fun run :: "'n platform \<Rightarrow> action list \<Rightarrow> config \<Rightarrow> config option" where
  "run P [] c = Some c"
| "run P (act # acts) c = (case step P act c of None \<Rightarrow> None | Some c' \<Rightarrow> run P acts c')"

text \<open>The component as mounted: no item, no run under way; the settings are any.\<close>

definition initial :: "config \<Rightarrow> bool" where
  "initial c = (items (app c) = [] \<and> inflight c = [])"

subsection \<open>Vocabulary of the properties\<close>

definition is_ocr :: "event \<Rightarrow> bool" where
  "is_ocr e = (case e of Sent (OcrRequest _ _ _ _) \<Rightarrow> True | _ \<Rightarrow> False)"


definition is_sent :: "event \<Rightarrow> bool" where
  "is_sent e = (case e of Sent _ \<Rightarrow> True | Slept _ \<Rightarrow> False)"

definition requests_sent :: "event list \<Rightarrow> nat" where
  "requests_sent l = length (filter is_sent l)"

definition total_delay :: "event list \<Rightarrow> int" where
  "total_delay l = sum_list (map (\<lambda>e. case e of Sent _ \<Rightarrow> 0 | Slept ms \<Rightarrow> ms) l)"



subsection \<open>Platforms and operations to run the code on\<close>

definition quota_error :: js_error where
  "quota_error = (new_Error ''Too Many Requests'')\<lparr>err_status := Num 429\<rparr>"

definition flaky_platform :: "nat platform" where
  "flaky_platform =
     \<lparr>generateContent = (\<lambda>req n. (if n < 2 then Inl quota_error else Inr (Some ''ok''), Suc n)),
      messages_create = (\<lambda>req n. (Inr [TextBlock ''{}''], Suc n)),
      JSON_parse = (\<lambda>s. if s = ''{}'' then Inr (JObject []) else Inl (new_Error ''Unexpected token'')),
      env_API_KEY = None, env_CLAUDE_API_KEY = None\<rparr>"

definition always_fails :: "js_error \<Rightarrow> nat world \<Rightarrow> (js_error + string) \<times> nat world" where
  "always_fails e w = (Inl e, w\<lparr>net := Suc (net w)\<rparr>)"


definition ocr_called_first :: "event list \<Rightarrow> bool" where
  "ocr_called_first l = (case find is_sent l of Some e \<Rightarrow> is_ocr e | None \<Rightarrow> False)"

text \<open>The requests to the standard model among the events of a log.\<close>

definition fallback_requests :: "event list \<Rightarrow> event list" where
  "fallback_requests l =
     filter (\<lambda>e. case e of
                    Sent (TranslateRequest model _ _ _ _) \<Rightarrow> model = TRANSLATION_MODEL_FLASH
                  | _ \<Rightarrow> False) l"

definition simple_parse :: "string \<Rightarrow> js_error + json" where
  "simple_parse s =
     (if s = ''{}'' then Inr (JObject []) else Inl (new_Error ''Unexpected token''))"

definition plain_platform :: "nat platform" where
  "plain_platform =
     \<lparr>generateContent = (\<lambda>req n. (Inr (Some ''{}''), Suc n)),
      messages_create = (\<lambda>req n. (Inr [TextBlock ''{}''], Suc n)),
      JSON_parse = simple_parse,
      env_API_KEY = None, env_CLAUDE_API_KEY = None\<rparr>"


text \<open>A platform whose premium model fails with the given error on every request.\<close>

definition pro_fails :: "js_error \<Rightarrow> nat platform" where
  "pro_fails e =
     plain_platform\<lparr>generateContent :=
       (\<lambda>req n. case req of
                   TranslateRequest model _ _ _ _ \<Rightarrow>
                     if model = TRANSLATION_MODEL_PRO then (Inl e, Suc n)
                     else (Inr (Some ''{}''), Suc n)
                 | _ \<Rightarrow> (Inr (Some ''{}''), Suc n))\<rparr>"

definition sample_item :: BatchItem where
  "sample_item =
     \<lparr>item_id = ''a1'', item_file = ''page.png'', item_previewUrl = ''data:image/png;base64,aGk='',
      item_base64Data = ''aGk='', item_mimeType = ''image/png'',
      status = IDLE, result = None, error = None\<rparr>"

definition sample_app :: App where
  "sample_app =
     \<lparr>items = [sample_item], sourceLang = AUTO, modelProvider = GEMINI, isSettingsOpen = False,
      claudeApiKey = ''c'', claudeModelId = ''claude-sonnet-4-5-20250929'',
      geminiApiKey = ''k'', geminiProApiKey = []\<rparr>"


text \<open>
  The message of the check that fails for a provider and the keys of a state, if one
  does: the two conditions of \<open>translateItem\<close>, in its order.
\<close>

definition rejection :: "'n platform \<Rightarrow> ModelProvider \<Rightarrow> App \<Rightarrow> string option" where
  "rejection P provider a =
     (if provider = CLAUDE \<and> claudeApiKey a = [] \<and> \<not> key_truthy (env_CLAUDE_API_KEY P)
      then Some missing_claude_message
      else if geminiApiKey a = [] \<and> \<not> key_truthy (env_API_KEY P)
      then Some missing_gemini_message
      else None)"

definition three_files :: "(string \<times> ProcessedImage) list" where
  "three_files =
     [(''id-1'', \<lparr>file_name = ''p1.png'', previewUrl = ''data:image/png;base64,QQ=='',
                  base64Data = ''QQ=='', mimeType = ''image/png''\<rparr>),
      (''id-2'', \<lparr>file_name = ''p2.png'', previewUrl = ''data:image/png;base64,Qg=='',
                  base64Data = ''Qg=='', mimeType = ''image/png''\<rparr>),
      (''id-3'', \<lparr>file_name = ''p3.png'', previewUrl = ''data:image/png;base64,Qw=='',
                  base64Data = ''Qw=='', mimeType = ''image/png''\<rparr>)]"

definition no_keys_app :: App where
  "no_keys_app =
     \<lparr>items = [], sourceLang = AUTO, modelProvider = CLAUDE, isSettingsOpen = False,
      claudeApiKey = ''c'', claudeModelId = ''claude-sonnet-4-5-20250929'',
      geminiApiKey = [], geminiProApiKey = []\<rparr>"


text \<open>
  What holds of every item of a reachable configuration: result and error as the
  status says, and \<open>ANALYZING\<close> while a run of the item waits for its request.
\<close>

definition item_ok :: "BatchItem \<Rightarrow> bool" where
  "item_ok x =
     (case status x of
        SUCCESS \<Rightarrow> result x \<noteq> None \<and> error x = None
      | ERROR \<Rightarrow> result x = None \<and> error x \<noteq> None
      | _ \<Rightarrow> result x = None \<and> error x = None)"

definition config_ok :: "config \<Rightarrow> bool" where
  "config_ok c =
     (distinct (map item_id (items (app c))) \<and> distinct (inflight c)
      \<and> (\<forall>x \<in> set (items (app c)).
            item_ok x \<and> (item_id x \<in> set (inflight c) \<longrightarrow> status x = ANALYZING)))"

text \<open>The status of the item with an identifier, \<open>None\<close> when there is no such item.\<close>

definition status_of :: "config \<Rightarrow> string \<Rightarrow> AppState option" where
  "status_of c i = map_option status (find (\<lambda>x. item_id x = i) (items (app c)))"



text \<open>
  How an action may change the status of the item with an identifier: not at all; a
  retry moves it from \<open>ERROR\<close> to \<open>ANALYZING\<close> and its run is under way; a settled
  request moves it from \<open>ANALYZING\<close> to \<open>SUCCESS\<close> or \<open>ERROR\<close>; an added file
  makes it, \<open>IDLE\<close>, and starts it at once, to \<open>ANALYZING\<close> with its run under way, or
  to \<open>ERROR\<close> with no run when a credential is missing; a removal ends it.
\<close>

definition status_change :: "action \<Rightarrow> string \<Rightarrow> config \<Rightarrow> config \<Rightarrow> bool" where
  "status_change act i c c' =
     (status_of c' i = status_of c i
      \<or> (status_of c i = Some ERROR \<and> status_of c' i = Some ANALYZING
           \<and> act = Retry i \<and> i \<in> set (inflight c'))
      \<or> (status_of c i = Some ANALYZING
           \<and> (status_of c' i = Some SUCCESS \<or> status_of c' i = Some ERROR)
           \<and> (\<exists>outcome. act = Settle i outcome))
      \<or> (status_of c i = None \<and> (\<exists>files. act = AddFiles files \<and> i \<in> fst ` set files)
           \<and> (status_of c' i = Some ANALYZING \<and> i \<in> set (inflight c')
                \<or> status_of c' i = Some ERROR \<and> i \<notin> set (inflight c')))
      \<or> (status_of c' i = None \<and> (act = Remove i \<or> act = ClearAll)))"


definition sample_start :: config where
  "sample_start = \<lparr>app = sample_app\<lparr>items := []\<rparr>, inflight = []\<rparr>"

definition sample_run :: "action list" where
  "sample_run =
     [AddFiles three_files,
      Settle ''id-1'' (Inr \<lparr>detectedLanguage = JString ''Korean'', segments = []\<rparr>),
      Settle ''id-2'' (Inl (new_Error ''Failed to process image. Please try again.''))]"

section \<open>The text normalizer: rules 1 and 2\<close>






















section \<open>The backoff retrier\<close>

lemma isQuotaError_iff:
  "isQuotaError e \<longleftrightarrow>
     js_or (js_or (err_status e) (err_code e)) (err_error_code e) = Num 429
     \<or> str_includes (if err_message e \<noteq> [] then err_message e else err_json e) ''429''
     \<or> str_includes (toLowerCase (if err_message e \<noteq> [] then err_message e else err_json e)) ''quota''
     \<or> str_includes (toLowerCase (if err_message e \<noteq> [] then err_message e else err_json e))
          ''resource_exhausted''"
  by (simp add: isQuotaError_def Let_def)

lemma retry_twice_then_success:
  assumes "generateContent P req n0 = (Inl e1, n1)" "isQuotaError e1"
    and "generateContent P req n1 = (Inl e2, n2)" "isQuotaError e2"
    and "generateContent P req n2 = (Inr r, n3)"
  shows "retryWithBackoff (send_generateContent P req) 3 2000 \<lparr>net = n0, log = []\<rparr>
     = (Inr r, \<lparr>net = n3, log = [Sent req, Slept 2000, Sent req, Slept 4000, Sent req]\<rparr>)"
  using assms by (simp add: retryWithBackoff.simps send_generateContent_def wait_def)

text \<open>
  C3: the retrier returns the result of a successful operation at once; a failure that
  is not a quota error (a quota error has the numeric code 429, or a message that holds
  \<open>429\<close>, or \<open>quota\<close> or \<open>resource_exhausted\<close> in any case) propagates after one
  call; a quota error with retries left sleeps the delay and goes on with one retry
  less and twice the delay; with no retry left the error propagates. With 3 retries
  and 2000 ms, a request that fails with a quota error twice and then succeeds is sent
  exactly 3 times, and the run sleeps 2000 + 4000 = 6000 ms.
\<close>

theorem retryWithBackoff_contract:
  "(operation w = (Inr v, w') \<longrightarrow>
      retryWithBackoff operation retries delay w = (Inr v, w'))
   \<and> (operation w = (Inl e, w') \<and> \<not> isQuotaError e \<longrightarrow>
      retryWithBackoff operation retries delay w = (Inl e, w'))
   \<and> (operation w = (Inl e, w') \<and> isQuotaError e \<and> 0 < retries \<longrightarrow>
      retryWithBackoff operation retries delay w =
        retryWithBackoff operation (retries - 1) (delay * 2) (wait delay w'))
   \<and> (operation w = (Inl e, w') \<and> retries \<le> 0 \<longrightarrow>
      retryWithBackoff operation retries delay w = (Inl e, w'))
   \<and> (isQuotaError e \<longleftrightarrow>
        js_or (js_or (err_status e) (err_code e)) (err_error_code e) = Num 429
        \<or> str_includes (if err_message e \<noteq> [] then err_message e else err_json e) ''429''
        \<or> str_includes (toLowerCase (if err_message e \<noteq> [] then err_message e else err_json e))
             ''quota''
        \<or> str_includes (toLowerCase (if err_message e \<noteq> [] then err_message e else err_json e))
             ''resource_exhausted'')
   \<and> (generateContent P req n0 = (Inl e, n1) \<and> \<not> isQuotaError e \<longrightarrow>
      retryWithBackoff (send_generateContent P req) retries delay \<lparr>net = n0, log = []\<rparr>
        = (Inl e, \<lparr>net = n1, log = [Sent req]\<rparr>))
   \<and> (generateContent P req n0 = (Inl e1, n1) \<and> isQuotaError e1
        \<and> generateContent P req n1 = (Inl e2, n2) \<and> isQuotaError e2
        \<and> generateContent P req n2 = (Inr r, n3) \<longrightarrow>
      (case retryWithBackoff (send_generateContent P req) 3 2000 \<lparr>net = n0, log = []\<rparr> of
         (res, wend) \<Rightarrow>
           res = Inr r \<and> net wend = n3
           \<and> log wend = [Sent req, Slept 2000, Sent req, Slept 4000, Sent req]
           \<and> requests_sent (log wend) = 3 \<and> total_delay (log wend) = 6000))"
proof (intro conjI impI)
  show "retryWithBackoff operation retries delay w = (Inr v, w')"
    if "operation w = (Inr v, w')"
    using that by (simp add: retryWithBackoff.simps)
  show "retryWithBackoff operation retries delay w = (Inl e, w')"
    if "operation w = (Inl e, w') \<and> \<not> isQuotaError e"
    using that by (simp add: retryWithBackoff.simps)
  show "retryWithBackoff operation retries delay w =
        retryWithBackoff operation (retries - 1) (delay * 2) (wait delay w')"
    if "operation w = (Inl e, w') \<and> isQuotaError e \<and> 0 < retries"
    using that by (simp add: retryWithBackoff.simps [of operation retries])
  show "retryWithBackoff operation retries delay w = (Inl e, w')"
    if "operation w = (Inl e, w') \<and> retries \<le> 0"
    using that by (simp add: retryWithBackoff.simps)
  show "isQuotaError e \<longleftrightarrow>
        js_or (js_or (err_status e) (err_code e)) (err_error_code e) = Num 429
        \<or> str_includes (if err_message e \<noteq> [] then err_message e else err_json e) ''429''
        \<or> str_includes (toLowerCase (if err_message e \<noteq> [] then err_message e else err_json e))
             ''quota''
        \<or> str_includes (toLowerCase (if err_message e \<noteq> [] then err_message e else err_json e))
             ''resource_exhausted''"
    by (rule isQuotaError_iff)
  show "retryWithBackoff (send_generateContent P req) retries delay \<lparr>net = n0, log = []\<rparr>
        = (Inl e, \<lparr>net = n1, log = [Sent req]\<rparr>)"
    if "generateContent P req n0 = (Inl e, n1) \<and> \<not> isQuotaError e"
    using that by (simp add: retryWithBackoff.simps send_generateContent_def)
  show "case retryWithBackoff (send_generateContent P req) 3 2000 \<lparr>net = n0, log = []\<rparr> of
         (res, wend) \<Rightarrow>
           res = Inr r \<and> net wend = n3
           \<and> log wend = [Sent req, Slept 2000, Sent req, Slept 4000, Sent req]
           \<and> requests_sent (log wend) = 3 \<and> total_delay (log wend) = 6000"
    if "generateContent P req n0 = (Inl e1, n1) \<and> isQuotaError e1
        \<and> generateContent P req n1 = (Inl e2, n2) \<and> isQuotaError e2
        \<and> generateContent P req n2 = (Inr r, n3)"
    using that retry_twice_then_success [of P req n0 e1 n1 e2 n2 r n3]
    by (simp add: requests_sent_def total_delay_def is_sent_def)
qed

theorem retryWithBackoff_contract_witness:
  "retryWithBackoff (\<lambda>w. (Inr ''done'', w\<lparr>net := Suc (net w)\<rparr>)) 3 2000 \<lparr>net = 0::nat, log = []\<rparr>
      = (Inr ''done'', \<lparr>net = 1, log = []\<rparr>)
   \<and> retryWithBackoff (always_fails (new_Error ''Not Found'')) 3 2000 \<lparr>net = 0, log = []\<rparr>
      = (Inl (new_Error ''Not Found''), \<lparr>net = 1, log = []\<rparr>)
   \<and> retryWithBackoff (always_fails quota_error) 1 2000 \<lparr>net = 0, log = []\<rparr>
      = (Inl quota_error, \<lparr>net = 2, log = [Slept 2000]\<rparr>)
   \<and> (case retryWithBackoff
             (send_generateContent flaky_platform (OcrRequest ''m'' None ''image/png'' ''abc''))
             3 2000 \<lparr>net = 0, log = []\<rparr> of
        (res, wend) \<Rightarrow>
          res = Inr (Some ''ok'') \<and> requests_sent (log wend) = 3 \<and> total_delay (log wend) = 6000)"
proof -
  have q: "isQuotaError quota_error"
    by (simp add: quota_error_def isQuotaError_def new_Error_def js_or_def)
  have nq: "\<not> isQuotaError (new_Error ''Not Found'')" by code_simp
  let ?ok = "\<lambda>w :: nat world. (Inr ''done'' :: js_error + string, w\<lparr>net := Suc (net w)\<rparr>)"
  let ?w0 = "\<lparr>net = 0::nat, log = []\<rparr>"
  let ?req = "OcrRequest ''m'' None ''image/png'' ''abc''"
  note c_ok = retryWithBackoff_contract [THEN conjunct1]
  note c_other = retryWithBackoff_contract [THEN conjunct2, THEN conjunct1]
  note c_quota = retryWithBackoff_contract [THEN conjunct2, THEN conjunct2, THEN conjunct1]
  note c_out = retryWithBackoff_contract
    [THEN conjunct2, THEN conjunct2, THEN conjunct2, THEN conjunct1]
  note c_run = retryWithBackoff_contract
    [THEN conjunct2, THEN conjunct2, THEN conjunct2, THEN conjunct2, THEN conjunct2,
     THEN conjunct2]
  have a: "retryWithBackoff ?ok 3 2000 ?w0 = (Inr ''done'', \<lparr>net = 1, log = []\<rparr>)"
    using c_ok [of ?ok ?w0 "''done''" "\<lparr>net = 1, log = []\<rparr>" 3 2000] by simp
  have b: "retryWithBackoff (always_fails (new_Error ''Not Found'')) 3 2000 ?w0
             = (Inl (new_Error ''Not Found''), \<lparr>net = 1, log = []\<rparr>)"
    using c_other [of "always_fails (new_Error ''Not Found'')" ?w0 "new_Error ''Not Found''"
                      "\<lparr>net = 1, log = []\<rparr>" 3 2000] nq
    by (simp add: always_fails_def)
  have c1: "retryWithBackoff (always_fails quota_error) 1 2000 ?w0
             = retryWithBackoff (always_fails quota_error) 0 4000 \<lparr>net = 1, log = [Slept 2000]\<rparr>"
    using c_quota [of "always_fails quota_error" ?w0 quota_error "\<lparr>net = 1, log = []\<rparr>" 1 2000] q
    by (simp add: always_fails_def wait_def)
  have c2: "retryWithBackoff (always_fails quota_error) 0 4000 \<lparr>net = 1, log = [Slept 2000]\<rparr>
             = (Inl quota_error, \<lparr>net = 2, log = [Slept 2000]\<rparr>)"
    using c_out [of "always_fails quota_error" "\<lparr>net = 1, log = [Slept 2000]\<rparr>" quota_error
                    "\<lparr>net = 2, log = [Slept 2000]\<rparr>" 0 4000]
    by (simp add: always_fails_def)
  have g: "generateContent flaky_platform ?req 0 = (Inl quota_error, 1)"
    "generateContent flaky_platform ?req 1 = (Inl quota_error, 2)"
    "generateContent flaky_platform ?req 2 = (Inr (Some ''ok''), 3)"
    by (simp_all add: flaky_platform_def)
  have d: "case retryWithBackoff (send_generateContent flaky_platform ?req) 3 2000 ?w0 of
        (res, wend) \<Rightarrow>
          res = Inr (Some ''ok'') \<and> requests_sent (log wend) = 3 \<and> total_delay (log wend) = 6000"
    using c_run [of flaky_platform ?req 0 quota_error 1 quota_error 2 "Some ''ok''" 3] q g
    by (auto split: prod.splits)
  show ?thesis using a b c1 c2 d by simp
qed


section \<open>What a run sends\<close>

lemma send_generateContent_log:
  "send_generateContent P req w = (x, y) \<Longrightarrow> log y = log w @ [Sent req]"
  by (auto simp: send_generateContent_def split: prod.splits)

lemma retry_send_log:
  "\<exists>l. log (snd (retryWithBackoff (send_generateContent P req) retries delay w))
         = log w @ Sent req # l
       \<and> set l \<subseteq> insert (Sent req) (range Slept)"
proof (induction "send_generateContent P req" retries delay w rule: retryWithBackoff.induct)
  case (1 retries delay w)
  obtain x y where op: "(x, y) = send_generateContent P req w"
    by (metis surj_pair)
  have ly: "log y = log w @ [Sent req]"
    using op send_generateContent_log [of P req w x y] by simp
  show ?case
  proof (cases x)
    case (Inr v)
    then show ?thesis
      using op [symmetric] ly by (simp add: retryWithBackoff.simps [of _ retries delay w])
  next
    case (Inl a)
    show ?thesis
    proof (cases "isQuotaError a \<and> 0 < retries")
      case True
      from "1" [OF op Inl True] obtain l where
        l: "log (snd (retryWithBackoff (send_generateContent P req) (retries - 1) (delay * 2)
                   (wait delay y))) = log (wait delay y) @ Sent req # l"
           "set l \<subseteq> insert (Sent req) (range Slept)"
        by blast
      have "retryWithBackoff (send_generateContent P req) retries delay w
            = retryWithBackoff (send_generateContent P req) (retries - 1) (delay * 2) (wait delay y)"
        using op [symmetric] Inl True by (simp add: retryWithBackoff.simps [of _ retries delay w])
      then have "log (snd (retryWithBackoff (send_generateContent P req) retries delay w))
            = log w @ Sent req # (Slept delay # Sent req # l)"
        using l(1) ly by (simp add: wait_def)
      moreover have "set (Slept delay # Sent req # l) \<subseteq> insert (Sent req) (range Slept)"
        using l(2) by auto
      ultimately show ?thesis by blast
    next
      case False
      then have "retryWithBackoff (send_generateContent P req) retries delay w = (x, y)"
        using op [symmetric] Inl by (auto simp: retryWithBackoff.simps [of _ retries delay w])
      then show ?thesis using ly by simp
    qed
  qed
qed

lemma extractTextFromImage_log:
  "\<exists>l. log (snd (extractTextFromImage P img mime key w))
         = log w @ Sent (OcrRequest OCR_MODEL (getAiClient P key) mime img) # l
       \<and> set l \<subseteq> insert (Sent (OcrRequest OCR_MODEL (getAiClient P key) mime img)) (range Slept)"
proof -
  let ?req = "OcrRequest OCR_MODEL (getAiClient P key) mime img"
  obtain r w' where rw: "retryWithBackoff (send_generateContent P ?req) 3 2000 w = (r, w')"
    by (metis surj_pair)
  have "snd (extractTextFromImage P img mime key w) = w'"
    using rw by (simp add: extractTextFromImage_def Let_def split: sum.splits option.splits)
  then show ?thesis
    using retry_send_log [of P ?req 3 2000 w] rw by simp
qed

lemma executeTranslation_log:
  "\<exists>l. log (snd (executeTranslation P img mime lang model client w))
         = log w @ Sent (TranslateRequest model client mime img lang) # l
       \<and> set l \<subseteq> insert (Sent (TranslateRequest model client mime img lang)) (range Slept)"
  unfolding executeTranslation_def by (rule retry_send_log)

lemma translate_pro_then_flash_log:
  "\<exists>l. log (snd (translate_pro_then_flash P img mime lang apiKey proKey w))
         = log w @ Sent (TranslateRequest TRANSLATION_MODEL_PRO
                           (getAiClient P (key_or proKey apiKey)) mime img lang) # l
       \<and> (\<forall>e \<in> set l. \<not> is_ocr e)"
proof -
  let ?pro = "TranslateRequest TRANSLATION_MODEL_PRO (getAiClient P (key_or proKey apiKey)) mime img lang"
  let ?flash = "TranslateRequest TRANSLATION_MODEL_FLASH (getAiClient P apiKey) mime img lang"
  obtain r w1 where p: "executeTranslation P img mime lang TRANSLATION_MODEL_PRO
                          (getAiClient P (key_or proKey apiKey)) w = (r, w1)"
    by (metis surj_pair)
  obtain l1 where l1: "log w1 = log w @ Sent ?pro # l1" "set l1 \<subseteq> insert (Sent ?pro) (range Slept)"
    using executeTranslation_log [of P img mime lang TRANSLATION_MODEL_PRO
            "getAiClient P (key_or proKey apiKey)" w] p by auto
  have no1: "\<forall>e \<in> set l1. \<not> is_ocr e"
    using l1(2) by (auto simp: is_ocr_def)
  show ?thesis
  proof (cases "\<exists>e. r = Inl e \<and> isQuotaError e")
    case True
    then have eq: "translate_pro_then_flash P img mime lang apiKey proKey w
        = executeTranslation P img mime lang TRANSLATION_MODEL_FLASH (getAiClient P apiKey) w1"
      using p by (auto simp: translate_pro_then_flash_def Let_def)
    obtain l2 where l2: "log (snd (executeTranslation P img mime lang TRANSLATION_MODEL_FLASH
                               (getAiClient P apiKey) w1)) = log w1 @ Sent ?flash # l2"
        "set l2 \<subseteq> insert (Sent ?flash) (range Slept)"
      using executeTranslation_log [of P img mime lang TRANSLATION_MODEL_FLASH
              "getAiClient P apiKey" w1] by auto
    have no2: "\<forall>e \<in> set (Sent ?flash # l2). \<not> is_ocr e"
      using l2(2) by (auto simp: is_ocr_def)
    have "log (snd (translate_pro_then_flash P img mime lang apiKey proKey w))
          = log w @ Sent ?pro # (l1 @ Sent ?flash # l2)"
      using eq l1(1) l2(1) by simp
    moreover have "\<forall>e \<in> set (l1 @ Sent ?flash # l2). \<not> is_ocr e"
      using no1 no2 by auto
    ultimately show ?thesis by blast
  next
    case False
    then have "translate_pro_then_flash P img mime lang apiKey proKey w = (r, w1)"
      using p by (auto simp: translate_pro_then_flash_def Let_def split: sum.splits)
    then show ?thesis using l1(1) no1 by auto
  qed
qed

lemma translateImageContent_world:
  "snd (translateImageContent P img mime lang apiKey proKey w)
   = snd (translate_pro_then_flash P img mime lang apiKey proKey w)"
  by (simp add: translateImageContent_def Let_def split: prod.splits sum.splits option.splits)

lemma translateImageContentWithClaude_log:
  assumes "key_truthy (key_or apiKey (env_CLAUDE_API_KEY P))"
  shows "\<exists>l. log (snd (translateImageContentWithClaude P img mime lang apiKey modelId gKey w))
         = log w @ Sent (OcrRequest OCR_MODEL (getAiClient P gKey) mime img) # l"
proof -
  obtain r w1 where e: "extractTextFromImage P img mime gKey w = (r, w1)"
    by (metis surj_pair)
  obtain l1 where l1: "log w1 = log w @ Sent (OcrRequest OCR_MODEL (getAiClient P gKey) mime img) # l1"
    using extractTextFromImage_log [of P img mime gKey w] e by auto
  have "\<exists>l2. log (snd (translateImageContentWithClaude P img mime lang apiKey modelId gKey w))
          = log w1 @ l2"
    using assms e
    by (auto simp: translateImageContentWithClaude_def Let_def send_messages_create_def
             split: sum.splits prod.splits)
  then show ?thesis using l1 by auto
qed


section \<open>The translation strategy\<close>

lemma translateItem_world:
  "snd (translateItem_start P item provider a) \<Longrightarrow>
   snd (translateItem P item lang provider (a, w)) = snd (translateItem_request P item lang provider a w)"
  by (auto simp: translateItem_def split: prod.splits bool.splits)

lemma ocr_called_first_Cons: "is_ocr e \<Longrightarrow> ocr_called_first (e # l)"
  by (auto simp: ocr_called_first_def is_ocr_def is_sent_def split: event.splits request.splits)

text \<open>
  C1, as stated, fails: with the Gemini provider selected a run sends no extraction
  request at all; the only request of this run is the premium translation request.
\<close>

theorem gemini_run_without_extraction:
  "snd (translateItem_start plain_platform sample_item GEMINI sample_app)
   \<and> log (snd (translateItem plain_platform sample_item AUTO GEMINI
                  (sample_app, \<lparr>net = 0, log = []\<rparr>)))
       = [Sent (TranslateRequest ''gemini-3-pro-preview'' (Some ''k'') ''image/png'' ''aGk='' AUTO)]
   \<and> \<not> ocr_called_first
         (log (snd (translateItem plain_platform sample_item AUTO GEMINI
                      (sample_app, \<lparr>net = 0, log = []\<rparr>))))"
  by code_simp

text \<open>
  C1, amended: in every run that passes the orchestrator's checks with the Claude
  provider selected, the extraction request is the first request sent, before any
  translation request; with the Gemini provider selected the run sends no extraction
  request, and its first request is the premium translation request, which carries
  the image.
\<close>

theorem extraction_first_with_claude:
  "(snd (translateItem_start P item CLAUDE a) \<longrightarrow>
      ocr_called_first (log (snd (translateItem P item lang CLAUDE (a, \<lparr>net = n, log = []\<rparr>)))))
   \<and> (snd (translateItem_start P item GEMINI a) \<longrightarrow>
      (\<forall>e \<in> set (log (snd (translateItem P item lang GEMINI (a, \<lparr>net = n, log = []\<rparr>)))).
          \<not> is_ocr e)
      \<and> (\<exists>l. log (snd (translateItem P item lang GEMINI (a, \<lparr>net = n, log = []\<rparr>)))
             = Sent (TranslateRequest TRANSLATION_MODEL_PRO
                       (getAiClient P (key_or (Some (geminiProApiKey a)) (Some (geminiApiKey a))))
                       (item_mimeType item) (item_base64Data item) lang) # l))"
proof (rule conjI; rule impI)
  assume s: "snd (translateItem_start P item CLAUDE a)"
  then have k: "key_truthy (key_or (Some (claudeApiKey a)) (env_CLAUDE_API_KEY P))"
    by (auto simp: translateItem_start_def key_or_def key_truthy_def Let_def split: if_splits)
  obtain l where "log (snd (translateImageContentWithClaude P (item_base64Data item)
       (item_mimeType item) lang (Some (claudeApiKey a)) (claudeModelId a) (Some (geminiApiKey a))
       \<lparr>net = n, log = []\<rparr>))
     = Sent (OcrRequest OCR_MODEL (getAiClient P (Some (geminiApiKey a))) (item_mimeType item)
               (item_base64Data item)) # l"
    using translateImageContentWithClaude_log [OF k, of "item_base64Data item" "item_mimeType item"
        lang "claudeModelId a" "Some (geminiApiKey a)" "\<lparr>net = n, log = []\<rparr>"]
    by auto
  then show "ocr_called_first (log (snd (translateItem P item lang CLAUDE (a, \<lparr>net = n, log = []\<rparr>))))"
    using translateItem_world [OF s, of lang "\<lparr>net = n, log = []\<rparr>"]
    by (simp add: translateItem_request_def ocr_called_first_Cons is_ocr_def)
next
  assume s: "snd (translateItem_start P item GEMINI a)"
  let ?w = "snd (translateItem P item lang GEMINI (a, \<lparr>net = n, log = []\<rparr>))"
  have w: "?w = snd (translate_pro_then_flash P (item_base64Data item) (item_mimeType item) lang
                       (Some (geminiApiKey a)) (Some (geminiProApiKey a)) \<lparr>net = n, log = []\<rparr>)"
    using translateItem_world [OF s, of lang "\<lparr>net = n, log = []\<rparr>"]
    by (simp add: translateItem_request_def translateImageContent_world)
  obtain l where l: "log ?w = Sent (TranslateRequest TRANSLATION_MODEL_PRO
                       (getAiClient P (key_or (Some (geminiProApiKey a)) (Some (geminiApiKey a))))
                       (item_mimeType item) (item_base64Data item) lang) # l"
      "\<forall>e \<in> set l. \<not> is_ocr e"
    using translate_pro_then_flash_log [of P "item_base64Data item" "item_mimeType item" lang
        "Some (geminiApiKey a)" "Some (geminiProApiKey a)" "\<lparr>net = n, log = []\<rparr>"] w
    by auto
  show "(\<forall>e \<in> set (log ?w). \<not> is_ocr e)
      \<and> (\<exists>l. log ?w
             = Sent (TranslateRequest TRANSLATION_MODEL_PRO
                       (getAiClient P (key_or (Some (geminiProApiKey a)) (Some (geminiApiKey a))))
                       (item_mimeType item) (item_base64Data item) lang) # l)"
    using l by (auto simp: is_ocr_def)
qed

theorem extraction_first_with_claude_witness:
  "snd (translateItem_start plain_platform sample_item CLAUDE sample_app)
   \<and> ocr_called_first
       (log (snd (translateItem plain_platform sample_item AUTO CLAUDE
                    (sample_app, \<lparr>net = 0, log = []\<rparr>))))
   \<and> snd (translateItem_start plain_platform sample_item GEMINI sample_app)
   \<and> filter is_ocr (log (snd (translateItem plain_platform sample_item AUTO GEMINI
                                 (sample_app, \<lparr>net = 0, log = []\<rparr>)))) = []"
proof -
  have c: "snd (translateItem_start plain_platform sample_item CLAUDE sample_app)"
    by code_simp
  have g: "snd (translateItem_start plain_platform sample_item GEMINI sample_app)"
    by code_simp
  show ?thesis
    using extraction_first_with_claude [of plain_platform sample_item sample_app AUTO 0] c g
    by (simp add: filter_empty_conv)
qed


lemma trim_Nil: "trim [] = []"
  by (simp add: trim_def)



lemma executeTranslation_once:
  assumes "generateContent P (TranslateRequest model client mime img lang) (net w) = (r, n')"
    and "\<not> (\<exists>e. r = Inl e \<and> isQuotaError e)"
  shows "executeTranslation P img mime lang model client w
         = (r, \<lparr>net = n', log = log w @ [Sent (TranslateRequest model client mime img lang)]\<rparr>)"
  using assms
  by (cases r)
     (auto simp: executeTranslation_def retryWithBackoff.simps [of _ 3 2000 w]
                 send_generateContent_def)

lemma no_fallback_in_pro_log:
  assumes "set l \<subseteq> insert (Sent (TranslateRequest TRANSLATION_MODEL_PRO client mime img lang))
                      (range Slept)"
  shows "fallback_requests
           (Sent (TranslateRequest TRANSLATION_MODEL_PRO client mime img lang) # l) = []"
proof -
  have "\<forall>e \<in> set (Sent (TranslateRequest TRANSLATION_MODEL_PRO client mime img lang) # l).
          \<not> (case e of
                Sent (TranslateRequest model _ _ _ _) \<Rightarrow> model = TRANSLATION_MODEL_FLASH
              | _ \<Rightarrow> False)"
    using assms by (auto simp: TRANSLATION_MODEL_PRO_def TRANSLATION_MODEL_FLASH_def)
  then show ?thesis
    unfolding fallback_requests_def by (simp only: filter_False)
qed

text \<open>
  C4: when the premium attempt fails with a quota error, the strategy makes exactly one
  fallback call, to the standard model with the standard key (the caller's, else the
  environment's); that call is retried like any other, and sends one request when its
  first answer is no quota error. When the premium attempt fails with any other error,
  the error leaves the strategy as it is and no request goes to the standard model.
\<close>

theorem premium_quota_fallback:
  "(executeTranslation P img mime lang TRANSLATION_MODEL_PRO
        (getAiClient P (key_or proKey apiKey)) \<lparr>net = n, log = []\<rparr> = (Inl e, w1)
    \<and> isQuotaError e \<longrightarrow>
      translate_pro_then_flash P img mime lang apiKey proKey \<lparr>net = n, log = []\<rparr>
        = executeTranslation P img mime lang TRANSLATION_MODEL_FLASH (getAiClient P apiKey) w1
      \<and> fallback_requests (log w1) = []
      \<and> (\<exists>l. log (snd (translate_pro_then_flash P img mime lang apiKey proKey
                          \<lparr>net = n, log = []\<rparr>))
               = log w1 @ Sent (TranslateRequest TRANSLATION_MODEL_FLASH (getAiClient P apiKey)
                                  mime img lang) # l
             \<and> set l \<subseteq> insert (Sent (TranslateRequest TRANSLATION_MODEL_FLASH
                                        (getAiClient P apiKey) mime img lang)) (range Slept))
      \<and> (\<forall>r n'. generateContent P (TranslateRequest TRANSLATION_MODEL_FLASH (getAiClient P apiKey)
                                     mime img lang) (net w1) = (r, n')
                 \<and> \<not> (\<exists>e'. r = Inl e' \<and> isQuotaError e') \<longrightarrow>
            translate_pro_then_flash P img mime lang apiKey proKey \<lparr>net = n, log = []\<rparr>
              = (r, \<lparr>net = n',
                     log = log w1 @ [Sent (TranslateRequest TRANSLATION_MODEL_FLASH
                                             (getAiClient P apiKey) mime img lang)]\<rparr>)
            \<and> length (fallback_requests
                        (log w1 @ [Sent (TranslateRequest TRANSLATION_MODEL_FLASH
                                           (getAiClient P apiKey) mime img lang)])) = 1))
   \<and> (executeTranslation P img mime lang TRANSLATION_MODEL_PRO
        (getAiClient P (key_or proKey apiKey)) \<lparr>net = n, log = []\<rparr> = (Inl e, w1)
      \<and> \<not> isQuotaError e \<longrightarrow>
      translate_pro_then_flash P img mime lang apiKey proKey \<lparr>net = n, log = []\<rparr> = (Inl e, w1)
      \<and> fallback_requests (log w1) = []
      \<and> translateImageContent P img mime lang apiKey proKey \<lparr>net = n, log = []\<rparr>
          = (Inl (new_Error ''Failed to process image. Please try again.''), w1))"
proof -
  let ?w0 = "\<lparr>net = n, log = []\<rparr> :: 'a world"
  let ?pro = "TranslateRequest TRANSLATION_MODEL_PRO (getAiClient P (key_or proKey apiKey)) mime img lang"
  let ?flash = "TranslateRequest TRANSLATION_MODEL_FLASH (getAiClient P apiKey) mime img lang"
  have nofb: "fallback_requests (log w1) = []"
    if p: "executeTranslation P img mime lang TRANSLATION_MODEL_PRO
             (getAiClient P (key_or proKey apiKey)) ?w0 = (Inl e, w1)"
  proof -
    obtain l where "log w1 = Sent ?pro # l" "set l \<subseteq> insert (Sent ?pro) (range Slept)"
      using executeTranslation_log [of P img mime lang TRANSLATION_MODEL_PRO
              "getAiClient P (key_or proKey apiKey)" ?w0] p by auto
    then show ?thesis using no_fallback_in_pro_log [of l] by simp
  qed
  have quota: "translate_pro_then_flash P img mime lang apiKey proKey ?w0
        = executeTranslation P img mime lang TRANSLATION_MODEL_FLASH (getAiClient P apiKey) w1"
    if "executeTranslation P img mime lang TRANSLATION_MODEL_PRO
             (getAiClient P (key_or proKey apiKey)) ?w0 = (Inl e, w1)" "isQuotaError e"
    using that by (simp add: translate_pro_then_flash_def Let_def)
  have other: "translate_pro_then_flash P img mime lang apiKey proKey ?w0 = (Inl e, w1)"
    if "executeTranslation P img mime lang TRANSLATION_MODEL_PRO
             (getAiClient P (key_or proKey apiKey)) ?w0 = (Inl e, w1)" "\<not> isQuotaError e"
    using that by (simp add: translate_pro_then_flash_def Let_def)
  have one: "length (fallback_requests (log w1 @ [Sent ?flash])) = 1"
    if "fallback_requests (log w1) = []"
    using that by (simp add: fallback_requests_def)
  show ?thesis
  proof (rule conjI; rule impI; elim conjE)
    assume p: "executeTranslation P img mime lang TRANSLATION_MODEL_PRO
             (getAiClient P (key_or proKey apiKey)) ?w0 = (Inl e, w1)" and q: "isQuotaError e"
    have a: "\<exists>l. log (snd (translate_pro_then_flash P img mime lang apiKey proKey ?w0))
               = log w1 @ Sent ?flash # l \<and> set l \<subseteq> insert (Sent ?flash) (range Slept)"
      using executeTranslation_log [of P img mime lang TRANSLATION_MODEL_FLASH
              "getAiClient P apiKey" w1] quota [OF p q] by simp
    have b: "\<forall>r n'. generateContent P ?flash (net w1) = (r, n')
                 \<and> \<not> (\<exists>e'. r = Inl e' \<and> isQuotaError e') \<longrightarrow>
            translate_pro_then_flash P img mime lang apiKey proKey ?w0
              = (r, \<lparr>net = n', log = log w1 @ [Sent ?flash]\<rparr>)
            \<and> length (fallback_requests (log w1 @ [Sent ?flash])) = 1"
      using executeTranslation_once [of P TRANSLATION_MODEL_FLASH "getAiClient P apiKey" mime img
              lang w1] quota [OF p q] one [OF nofb [OF p]]
      by simp
    show "translate_pro_then_flash P img mime lang apiKey proKey ?w0
        = executeTranslation P img mime lang TRANSLATION_MODEL_FLASH (getAiClient P apiKey) w1
      \<and> fallback_requests (log w1) = []
      \<and> (\<exists>l. log (snd (translate_pro_then_flash P img mime lang apiKey proKey ?w0))
               = log w1 @ Sent ?flash # l \<and> set l \<subseteq> insert (Sent ?flash) (range Slept))
      \<and> (\<forall>r n'. generateContent P ?flash (net w1) = (r, n')
                 \<and> \<not> (\<exists>e'. r = Inl e' \<and> isQuotaError e') \<longrightarrow>
            translate_pro_then_flash P img mime lang apiKey proKey ?w0
              = (r, \<lparr>net = n', log = log w1 @ [Sent ?flash]\<rparr>)
            \<and> length (fallback_requests (log w1 @ [Sent ?flash])) = 1)"
      using quota [OF p q] nofb [OF p] a b by blast
  next
    assume p: "executeTranslation P img mime lang TRANSLATION_MODEL_PRO
             (getAiClient P (key_or proKey apiKey)) ?w0 = (Inl e, w1)" and q: "\<not> isQuotaError e"
    have "translateImageContent P img mime lang apiKey proKey ?w0
          = (Inl (new_Error ''Failed to process image. Please try again.''), w1)"
      using other [OF p q] q by (simp add: translateImageContent_def)
    then show "translate_pro_then_flash P img mime lang apiKey proKey ?w0 = (Inl e, w1)
      \<and> fallback_requests (log w1) = []
      \<and> translateImageContent P img mime lang apiKey proKey ?w0
          = (Inl (new_Error ''Failed to process image. Please try again.''), w1)"
      using other [OF p q] nofb [OF p] by simp
  qed
qed


theorem premium_quota_fallback_witness:
  "translate_pro_then_flash (pro_fails quota_error) ''aGk='' ''image/png'' KOREAN (Some ''k'')
       (Some ''p'') \<lparr>net = 0, log = []\<rparr>
     = (Inr (Some ''{}''),
        \<lparr>net = 5,
         log = [Sent (TranslateRequest TRANSLATION_MODEL_PRO (Some ''p'') ''image/png'' ''aGk='' KOREAN),
                Slept 2000,
                Sent (TranslateRequest TRANSLATION_MODEL_PRO (Some ''p'') ''image/png'' ''aGk='' KOREAN),
                Slept 4000,
                Sent (TranslateRequest TRANSLATION_MODEL_PRO (Some ''p'') ''image/png'' ''aGk='' KOREAN),
                Slept 8000,
                Sent (TranslateRequest TRANSLATION_MODEL_PRO (Some ''p'') ''image/png'' ''aGk='' KOREAN),
                Sent (TranslateRequest TRANSLATION_MODEL_FLASH (Some ''k'') ''image/png'' ''aGk='' KOREAN)]\<rparr>)
   \<and> translate_pro_then_flash (pro_fails (new_Error ''Not Found'')) ''aGk='' ''image/png'' KOREAN
       (Some ''k'') (Some ''p'') \<lparr>net = 0, log = []\<rparr>
     = (Inl (new_Error ''Not Found''),
        \<lparr>net = 1,
         log = [Sent (TranslateRequest TRANSLATION_MODEL_PRO (Some ''p'') ''image/png'' ''aGk='' KOREAN)]\<rparr>)"
proof -
  let ?pro = "TranslateRequest TRANSLATION_MODEL_PRO (Some ''p'') ''image/png'' ''aGk='' KOREAN"
  let ?flash = "TranslateRequest TRANSLATION_MODEL_FLASH (Some ''k'') ''image/png'' ''aGk='' KOREAN"
  let ?w1 = "\<lparr>net = 4::nat,
              log = [Sent ?pro, Slept 2000, Sent ?pro, Slept 4000, Sent ?pro, Slept 8000, Sent ?pro]\<rparr>"
  let ?w1' = "\<lparr>net = 1::nat, log = [Sent ?pro]\<rparr>"
  have q: "isQuotaError quota_error" by code_simp
  have nq: "\<not> isQuotaError (new_Error ''Not Found'')" by code_simp
  have kp: "getAiClient (pro_fails quota_error) (key_or (Some ''p'') (Some ''k'')) = Some ''p''"
    "getAiClient (pro_fails quota_error) (Some ''k'') = Some ''k''"
    "getAiClient (pro_fails (new_Error ''Not Found'')) (key_or (Some ''p'') (Some ''k'')) = Some ''p''"
    by (simp_all add: getAiClient_def key_or_def key_truthy_def)
  have p1: "executeTranslation (pro_fails quota_error) ''aGk='' ''image/png'' KOREAN
              TRANSLATION_MODEL_PRO (Some ''p'') \<lparr>net = 0, log = []\<rparr> = (Inl quota_error, ?w1)"
    by code_simp
  have p2: "executeTranslation (pro_fails (new_Error ''Not Found'')) ''aGk='' ''image/png'' KOREAN
              TRANSLATION_MODEL_PRO (Some ''p'') \<lparr>net = 0, log = []\<rparr>
            = (Inl (new_Error ''Not Found''), ?w1')"
    by code_simp
  have g: "generateContent (pro_fails quota_error) ?flash 4 = (Inr (Some ''{}''), 5)"
    by code_simp
  note quota_case = premium_quota_fallback [THEN conjunct1, rule_format]
  note other_case = premium_quota_fallback [THEN conjunct2, rule_format]
  have a: "translate_pro_then_flash (pro_fails quota_error) ''aGk='' ''image/png'' KOREAN (Some ''k'')
             (Some ''p'') \<lparr>net = 0, log = []\<rparr>
           = (Inr (Some ''{}''), \<lparr>net = 5, log = log ?w1 @ [Sent ?flash]\<rparr>)"
    using quota_case [of "pro_fails quota_error" "''aGk=''" "''image/png''" KOREAN "Some ''p''"
                         "Some ''k''" 0 quota_error ?w1, THEN conjunct2, THEN conjunct2,
                         THEN conjunct2, rule_format, of "Inr (Some ''{}'')" 5]
          p1 q g kp
    by simp
  have b: "translate_pro_then_flash (pro_fails (new_Error ''Not Found'')) ''aGk='' ''image/png''
             KOREAN (Some ''k'') (Some ''p'') \<lparr>net = 0, log = []\<rparr>
           = (Inl (new_Error ''Not Found''), ?w1')"
    using other_case [of "pro_fails (new_Error ''Not Found'')" "''aGk=''" "''image/png''" KOREAN
                         "Some ''p''" "Some ''k''" 0 "new_Error ''Not Found''" ?w1']
          p2 nq kp
    by simp
  show ?thesis using a b by simp
qed

text \<open>
  C5 fails on the image-in service: with the hint \<open>AUTO\<close> and a response with no
  \<open>detectedLanguage\<close>, \<open>translateImageContent\<close> returns the value of the enum member,
  \<open>Auto-Detect\<close>, where \<open>translateImageContentWithClaude\<close> returns \<open>Unknown\<close>.
\<close>

theorem gemini_auto_hint_not_unknown:
  "fst (translateImageContent plain_platform ''aGk='' ''image/png'' AUTO (Some ''k'') None
          \<lparr>net = 0, log = []\<rparr>)
     = Inr \<lparr>detectedLanguage = JString ''Auto-Detect'', segments = []\<rparr>
   \<and> fst (translateImageContentWithClaude plain_platform ''aGk='' ''image/png'' AUTO (Some ''c'')
            ''claude-sonnet-4-5-20250929'' (Some ''k'') \<lparr>net = 0, log = []\<rparr>)
     = Inr \<lparr>detectedLanguage = JString ''Unknown'', segments = []\<rparr>"
  by code_simp

lemma segments_array_not_array:
  "(\<forall>xs. v \<noteq> Some (JArray xs)) \<Longrightarrow> segments_array v = []"
  by (auto simp: segments_array_def split: option.splits json.splits)

text \<open>
  C10: when the provider's response parses as a JSON object whose \<open>segments\<close> is missing
  or no array, each service returns a result with no segment (and the detected language
  the object or the hint gives), not an error; and a segment that is an object with no
  \<open>target\<close> gets the empty string as its target.
\<close>

theorem segments_default_to_empty:
  "(translate_pro_then_flash P img mime lang apiKey proKey w = (Inr (Some text), w')
      \<and> text \<noteq> [] \<and> gemini_parse P text = Inr (JObject kvs)
      \<and> (\<forall>xs. map_of kvs ''segments'' \<noteq> Some (JArray xs)) \<longrightarrow>
      translateImageContent P img mime lang apiKey proKey w
        = (Inr \<lparr>detectedLanguage = json_or (map_of kvs ''detectedLanguage'')
                                      (JString (SourceLanguage_value lang)),
                segments = []\<rparr>, w'))
   \<and> (key_truthy (key_or cKey (env_CLAUDE_API_KEY P))
      \<and> extractTextFromImage P img mime gKey w = (Inr extracted, w1) \<and> trim extracted \<noteq> []
      \<and> send_messages_create P
           (ClaudeRequest (key_or cKey (env_CLAUDE_API_KEY P)) modelId lang extracted) w1
         = (Inr content, w2)
      \<and> find (\<lambda>c. case c of TextBlock _ \<Rightarrow> True | OtherBlock \<Rightarrow> False) content
         = Some (TextBlock ctext)
      \<and> JSON_parse P (claude_json_text ctext) = Inr (JObject kvs)
      \<and> (\<forall>xs. map_of kvs ''segments'' \<noteq> Some (JArray xs)) \<longrightarrow>
      translateImageContentWithClaude P img mime lang cKey modelId gKey w
        = (Inr \<lparr>detectedLanguage = json_or (map_of kvs ''detectedLanguage'')
                                      (JString (if lang = AUTO then ''Unknown''
                                                else SourceLanguage_value lang)),
                segments = []\<rparr>, w2))
   \<and> (map_of kvs ''target'' = None \<longrightarrow>
      map_segment (JObject kvs) = Inr \<lparr>source = map_of kvs ''source'', target = []\<rparr>)"
proof (intro conjI impI; (elim conjE)?)
  assume "translate_pro_then_flash P img mime lang apiKey proKey w = (Inr (Some text), w')"
    "text \<noteq> []" "gemini_parse P text = Inr (JObject kvs)"
    "\<forall>xs. map_of kvs ''segments'' \<noteq> Some (JArray xs)"
  then show "translateImageContent P img mime lang apiKey proKey w
        = (Inr \<lparr>detectedLanguage = json_or (map_of kvs ''detectedLanguage'')
                                      (JString (SourceLanguage_value lang)),
                segments = []\<rparr>, w')"
    by (simp add: translateImageContent_def gemini_result_def segments_array_not_array)
next
  assume k: "key_truthy (key_or cKey (env_CLAUDE_API_KEY P))"
    and x: "extractTextFromImage P img mime gKey w = (Inr extracted, w1)"
    and t: "trim extracted \<noteq> []"
    and m: "send_messages_create P
           (ClaudeRequest (key_or cKey (env_CLAUDE_API_KEY P)) modelId lang extracted) w1
         = (Inr content, w2)"
    and f: "find (\<lambda>c. case c of TextBlock _ \<Rightarrow> True | OtherBlock \<Rightarrow> False) content
         = Some (TextBlock ctext)"
    and p: "JSON_parse P (claude_json_text ctext) = Inr (JObject kvs)"
    and s: "\<forall>xs. map_of kvs ''segments'' \<noteq> Some (JArray xs)"
  have ne: "extracted \<noteq> []" using t trim_Nil by auto
  have body: "claude_body P lang (Inr content)
      = Inr \<lparr>detectedLanguage = json_or (map_of kvs ''detectedLanguage'')
                                      (JString (if lang = AUTO then ''Unknown''
                                                else SourceLanguage_value lang)),
             segments = []\<rparr>"
    using f p s by (simp add: claude_body_def claude_result_def segments_array_not_array)
  show "translateImageContentWithClaude P img mime lang cKey modelId gKey w
        = (Inr \<lparr>detectedLanguage = json_or (map_of kvs ''detectedLanguage'')
                                      (JString (if lang = AUTO then ''Unknown''
                                                else SourceLanguage_value lang)),
                segments = []\<rparr>, w2)"
    using k x t ne m body by (simp add: translateImageContentWithClaude_def Let_def)
next
  assume "map_of kvs ''target'' = None"
  then show "map_segment (JObject kvs) = Inr \<lparr>source = map_of kvs ''source'', target = []\<rparr>"
    by (simp add: map_segment_def json_or_def normalize_def capitalize_first_def)
qed

theorem segments_default_to_empty_witness:
  "translateImageContent plain_platform ''aGk='' ''image/png'' SPANISH (Some ''k'') None
       \<lparr>net = 0, log = []\<rparr>
     = (Inr \<lparr>detectedLanguage = JString ''Spanish'', segments = []\<rparr>,
        \<lparr>net = 1, log = [Sent (TranslateRequest TRANSLATION_MODEL_PRO (Some ''k'') ''image/png''
                                  ''aGk='' SPANISH)]\<rparr>)
   \<and> translateImageContentWithClaude plain_platform ''aGk='' ''image/png'' SPANISH (Some ''c'')
       ''claude-sonnet-4-5-20250929'' (Some ''k'') \<lparr>net = 0, log = []\<rparr>
     = (Inr \<lparr>detectedLanguage = JString ''Spanish'', segments = []\<rparr>,
        \<lparr>net = 2, log = [Sent (OcrRequest OCR_MODEL (Some ''k'') ''image/png'' ''aGk=''),
                         Sent (ClaudeRequest (Some ''c'') ''claude-sonnet-4-5-20250929'' SPANISH
                                 ''{}'')]\<rparr>)
   \<and> map_segment (JObject [(''source'', JString ''hola'')])
     = Inr \<lparr>source = Some (JString ''hola''), target = []\<rparr>"
proof -
  let ?w0 = "\<lparr>net = 0::nat, log = []\<rparr>"
  let ?pro = "TranslateRequest TRANSLATION_MODEL_PRO (Some ''k'') ''image/png'' ''aGk='' SPANISH"
  let ?ocr = "OcrRequest OCR_MODEL (Some ''k'') ''image/png'' ''aGk=''"
  let ?cl = "ClaudeRequest (Some ''c'') ''claude-sonnet-4-5-20250929'' SPANISH ''{}''"
  note gem = segments_default_to_empty [THEN conjunct1, rule_format]
  note cla = segments_default_to_empty [THEN conjunct2, THEN conjunct1, rule_format]
  note seg = segments_default_to_empty [THEN conjunct2, THEN conjunct2, rule_format]
  have g1: "translate_pro_then_flash plain_platform ''aGk='' ''image/png'' SPANISH (Some ''k'') None ?w0
            = (Inr (Some ''{}''), \<lparr>net = 1, log = [Sent ?pro]\<rparr>)"
    by code_simp
  have g2: "gemini_parse plain_platform ''{}'' = Inr (JObject [])"
    by code_simp
  have a: "translateImageContent plain_platform ''aGk='' ''image/png'' SPANISH (Some ''k'') None ?w0
     = (Inr \<lparr>detectedLanguage = JString ''Spanish'', segments = []\<rparr>, \<lparr>net = 1, log = [Sent ?pro]\<rparr>)"
    using gem [of plain_platform "''aGk=''" "''image/png''" SPANISH "Some ''k''" None ?w0 "''{}''"
                  "\<lparr>net = 1, log = [Sent ?pro]\<rparr>" "[]"] g1 g2
    by (simp add: json_or_def)
  have k: "key_truthy (key_or (Some ''c'') (env_CLAUDE_API_KEY plain_platform))"
    and ko: "key_or (Some ''c'') (env_CLAUDE_API_KEY plain_platform) = Some ''c''"
    by (simp_all add: key_or_def key_truthy_def)
  have c1: "extractTextFromImage plain_platform ''aGk='' ''image/png'' (Some ''k'') ?w0
            = (Inr ''{}'', \<lparr>net = 1, log = [Sent ?ocr]\<rparr>)"
    by code_simp
  have c2: "trim ''{}'' \<noteq> []" by code_simp
  have c3: "send_messages_create plain_platform ?cl \<lparr>net = 1, log = [Sent ?ocr]\<rparr>
            = (Inr [TextBlock ''{}''], \<lparr>net = 2, log = [Sent ?ocr, Sent ?cl]\<rparr>)"
    by code_simp
  have c4: "JSON_parse plain_platform (claude_json_text ''{}'') = Inr (JObject [])"
    by code_simp
  have b: "translateImageContentWithClaude plain_platform ''aGk='' ''image/png'' SPANISH (Some ''c'')
       ''claude-sonnet-4-5-20250929'' (Some ''k'') ?w0
     = (Inr \<lparr>detectedLanguage = JString ''Spanish'', segments = []\<rparr>,
        \<lparr>net = 2, log = [Sent ?ocr, Sent ?cl]\<rparr>)"
    using cla [of "Some ''c''" plain_platform "''aGk=''" "''image/png''" "Some ''k''" ?w0 "''{}''"
                  "\<lparr>net = 1, log = [Sent ?ocr]\<rparr>" "''claude-sonnet-4-5-20250929''" SPANISH
                  "[TextBlock ''{}'']" "\<lparr>net = 2, log = [Sent ?ocr, Sent ?cl]\<rparr>" "''{}''" "[]"]
          k ko c1 c2 c3 c4
    by (simp add: json_or_def)
  have c: "map_segment (JObject [(''source'', JString ''hola'')])
     = Inr \<lparr>source = Some (JString ''hola''), target = []\<rparr>"
    using seg [of "[(''source'', JString ''hola'')]"] by simp
  show ?thesis using a b c by simp
qed


section \<open>The batch orchestrator\<close>

lemma rejection_keys [simp]:
  "rejection P provider (a\<lparr>items := xs\<rparr>) = rejection P provider a"
  "rejection P provider (a\<lparr>isSettingsOpen := b\<rparr>) = rejection P provider a"
  by (simp_all add: rejection_def)

lemma translateItem_start_rejected:
  "rejection P provider a = Some msg \<Longrightarrow>
   translateItem_start P item provider a
     = (a\<lparr>items := updateItem (item_id item) (\<lambda>i. i\<lparr>status := ERROR, error := Some msg\<rparr>) (items a),
          isSettingsOpen := True\<rparr>, False)"
  by (auto simp: rejection_def translateItem_start_def Let_def split: if_splits)

lemma translateItem_start_dispatched:
  "rejection P provider a = None \<Longrightarrow>
   translateItem_start P item provider a
     = (a\<lparr>items := updateItem (item_id item) (\<lambda>i. i\<lparr>status := ANALYZING, error := None\<rparr>) (items a)\<rparr>,
        True)"
  by (auto simp: rejection_def translateItem_start_def Let_def split: if_splits)

text \<open>The items with an identifier of \<open>S\<close> changed by \<open>f\<close>, the others left.\<close>

lemma updateItem_as_map:
  "updateItem i f xs = map (\<lambda>x. if item_id x \<in> {i} then f x else x) xs"
  by (simp add: updateItem_def)

lemma map_ids_twice:
  assumes "\<And>x. item_id (f x) = item_id x" "\<And>x. f (f x) = f x"
  shows "map (\<lambda>x. if item_id x \<in> T then f x else x) (map (\<lambda>x. if item_id x \<in> S then f x else x) xs)
         = map (\<lambda>x. if item_id x \<in> S \<union> T then f x else x) xs"
  using assms by (induction xs) auto

lemma start_all_rejected:
  "rejection P provider a = Some msg \<Longrightarrow>
   start_all P provider its a
     = (a\<lparr>items := map (\<lambda>x. if item_id x \<in> item_id ` set its
                               then x\<lparr>status := ERROR, error := Some msg\<rparr> else x) (items a),
          isSettingsOpen := (its \<noteq> [] \<or> isSettingsOpen a)\<rparr>, [])"
proof (induction its arbitrary: a)
  case Nil
  then show ?case by simp
next
  case (Cons it its)
  let ?f = "\<lambda>x. x\<lparr>status := ERROR, error := Some msg\<rparr>"
  let ?a' = "a\<lparr>items := updateItem (item_id it) ?f (items a), isSettingsOpen := True\<rparr>"
  have r: "rejection P provider ?a' = Some msg" using Cons.prems by simp
  have m: "map (\<lambda>x. if item_id x \<in> item_id ` set its then ?f x else x)
             (map (\<lambda>x. if item_id x \<in> {item_id it} then ?f x else x) (items a))
           = map (\<lambda>x. if item_id x \<in> {item_id it} \<union> item_id ` set its then ?f x else x) (items a)"
    by (rule map_ids_twice) simp_all
  show ?case
    using translateItem_start_rejected [OF Cons.prems, of it] Cons.IH [OF r] m
    by (simp add: updateItem_as_map)
qed

lemma start_all_dispatched:
  "rejection P provider a = None \<Longrightarrow>
   start_all P provider its a
     = (a\<lparr>items := map (\<lambda>x. if item_id x \<in> item_id ` set its
                               then x\<lparr>status := ANALYZING, error := None\<rparr> else x) (items a)\<rparr>,
        its)"
proof (induction its arbitrary: a)
  case Nil
  then show ?case by simp
next
  case (Cons it its)
  let ?f = "\<lambda>x. x\<lparr>status := ANALYZING, error := None\<rparr>"
  let ?a' = "a\<lparr>items := updateItem (item_id it) ?f (items a)\<rparr>"
  have r: "rejection P provider ?a' = None" using Cons.prems by simp
  have m: "map (\<lambda>x. if item_id x \<in> item_id ` set its then ?f x else x)
             (map (\<lambda>x. if item_id x \<in> {item_id it} then ?f x else x) (items a))
           = map (\<lambda>x. if item_id x \<in> {item_id it} \<union> item_id ` set its then ?f x else x) (items a)"
    by (rule map_ids_twice) simp_all
  show ?case
    using translateItem_start_dispatched [OF Cons.prems, of it] Cons.IH [OF r] m
    by (simp add: updateItem_as_map)
qed

lemma item_id_new_item [simp]: "item_id (new_item f) = fst f"
  by (simp add: new_item_def)

lemma map_fresh_append:
  assumes "\<forall>x \<in> set xs. item_id x \<notin> item_id ` set ns"
  shows "map (\<lambda>x. if item_id x \<in> item_id ` set ns then f x else x) (xs @ ns) = xs @ map f ns"
proof -
  have "map (\<lambda>x. if item_id x \<in> item_id ` set ns then f x else x) xs = xs"
    using assms by (induction xs) auto
  moreover have "map (\<lambda>x. if item_id x \<in> item_id ` set ns then f x else x) ns = map f ns"
    by (rule map_cong) auto
  ultimately show ?thesis by simp
qed

lemma handleFileChange_rejected:
  assumes "rejection P (modelProvider a) a = Some msg"
    and "\<forall>f \<in> set files. fst f \<notin> item_id ` set (items a)"
  shows "handleFileChange P files a
     = (a\<lparr>items := items a @ map (\<lambda>f. (new_item f)\<lparr>status := ERROR, error := Some msg\<rparr>) files,
          isSettingsOpen := (files \<noteq> [] \<or> isSettingsOpen a)\<rparr>, [])"
proof -
  let ?ns = "map new_item files"
  have r: "rejection P (modelProvider a) (a\<lparr>items := items a @ ?ns\<rparr>) = Some msg"
    using assms(1) by simp
  have fresh: "\<forall>x \<in> set (items a). item_id x \<notin> item_id ` set ?ns"
    using assms(2) by force
  show ?thesis
    using start_all_rejected [OF r, of ?ns]
          map_fresh_append [OF fresh, of "\<lambda>x. x\<lparr>status := ERROR, error := Some msg\<rparr>"]
    by (simp add: handleFileChange_def Let_def comp_def)
qed

lemma rejection_Some:
  "(provider = CLAUDE \<and> claudeApiKey a = [] \<and> \<not> key_truthy (env_CLAUDE_API_KEY P))
     \<or> (geminiApiKey a = [] \<and> \<not> key_truthy (env_API_KEY P)) \<Longrightarrow>
   \<exists>msg. rejection P provider a = Some msg
         \<and> msg \<in> {missing_claude_message, missing_gemini_message}"
  unfolding rejection_def by (simp, blast)

text \<open>
  C8: when a credential a run needs is absent from the settings and from the
  environment (the Claude key with the Claude provider selected, or the Gemini key,
  which every mode needs), \<open>translateItem\<close> sets the item to \<open>ERROR\<close> with the message
  that names the missing key, opens the settings dialog, and leaves the outside world
  and the log as they were: no request is sent. Adding files in such a state appends
  one item in \<open>ERROR\<close> with that message per file, and starts no request.
\<close>

theorem missing_credential_rejected:
  "((provider = CLAUDE \<and> claudeApiKey a = [] \<and> \<not> key_truthy (env_CLAUDE_API_KEY P))
     \<or> (geminiApiKey a = [] \<and> \<not> key_truthy (env_API_KEY P)) \<longrightarrow>
      (\<exists>msg \<in> {missing_claude_message, missing_gemini_message}.
         translateItem P item lang provider (a, w)
           = (a\<lparr>items := updateItem (item_id item)
                            (\<lambda>i. i\<lparr>status := ERROR, error := Some msg\<rparr>) (items a),
                isSettingsOpen := True\<rparr>, w)))
   \<and> (((modelProvider a = CLAUDE \<and> claudeApiKey a = [] \<and> \<not> key_truthy (env_CLAUDE_API_KEY P))
        \<or> (geminiApiKey a = [] \<and> \<not> key_truthy (env_API_KEY P)))
       \<and> (\<forall>f \<in> set files. fst f \<notin> item_id ` set (items a)) \<longrightarrow>
      (\<exists>msg \<in> {missing_claude_message, missing_gemini_message}.
         handleFileChange P files a
           = (a\<lparr>items := items a
                            @ map (\<lambda>f. (new_item f)\<lparr>status := ERROR, error := Some msg\<rparr>) files,
                isSettingsOpen := (files \<noteq> [] \<or> isSettingsOpen a)\<rparr>, [])))"
proof (rule conjI; rule impI)
  assume "(provider = CLAUDE \<and> claudeApiKey a = [] \<and> \<not> key_truthy (env_CLAUDE_API_KEY P))
     \<or> (geminiApiKey a = [] \<and> \<not> key_truthy (env_API_KEY P))"
  then obtain msg where m: "rejection P provider a = Some msg"
      "msg \<in> {missing_claude_message, missing_gemini_message}"
    using rejection_Some [of provider a P] by blast
  have "translateItem P item lang provider (a, w)
           = (a\<lparr>items := updateItem (item_id item)
                            (\<lambda>i. i\<lparr>status := ERROR, error := Some msg\<rparr>) (items a),
                isSettingsOpen := True\<rparr>, w)"
    using translateItem_start_rejected [OF m(1), of item] by (simp add: translateItem_def)
  then show "\<exists>msg \<in> {missing_claude_message, missing_gemini_message}.
         translateItem P item lang provider (a, w)
           = (a\<lparr>items := updateItem (item_id item)
                            (\<lambda>i. i\<lparr>status := ERROR, error := Some msg\<rparr>) (items a),
                isSettingsOpen := True\<rparr>, w)"
    using m(2) by blast
next
  assume h: "((modelProvider a = CLAUDE \<and> claudeApiKey a = [] \<and> \<not> key_truthy (env_CLAUDE_API_KEY P))
        \<or> (geminiApiKey a = [] \<and> \<not> key_truthy (env_API_KEY P)))
       \<and> (\<forall>f \<in> set files. fst f \<notin> item_id ` set (items a))"
  then obtain msg where m: "rejection P (modelProvider a) a = Some msg"
      "msg \<in> {missing_claude_message, missing_gemini_message}"
    using rejection_Some [of "modelProvider a" a P] by blast
  show "\<exists>msg \<in> {missing_claude_message, missing_gemini_message}.
         handleFileChange P files a
           = (a\<lparr>items := items a
                            @ map (\<lambda>f. (new_item f)\<lparr>status := ERROR, error := Some msg\<rparr>) files,
                isSettingsOpen := (files \<noteq> [] \<or> isSettingsOpen a)\<rparr>, [])"
    using handleFileChange_rejected [OF m(1), of files] h m(2) by blast
qed

theorem missing_credential_rejected_witness:
  "geminiApiKey no_keys_app = [] \<and> \<not> key_truthy (env_API_KEY plain_platform)
   \<and> handleFileChange plain_platform three_files no_keys_app
     = (no_keys_app
          \<lparr>items := map (\<lambda>f. (new_item f)\<lparr>status := ERROR, error := Some missing_gemini_message\<rparr>)
                        three_files,
           isSettingsOpen := True\<rparr>, [])
   \<and> map status (items (fst (handleFileChange plain_platform three_files no_keys_app)))
     = [ERROR, ERROR, ERROR]
   \<and> translateItem plain_platform sample_item KOREAN GEMINI
        (no_keys_app\<lparr>items := [sample_item]\<rparr>, \<lparr>net = 0, log = []\<rparr>)
     = (no_keys_app\<lparr>items := [sample_item\<lparr>status := ERROR, error := Some missing_gemini_message\<rparr>],
                     isSettingsOpen := True\<rparr>, \<lparr>net = 0, log = []\<rparr>)"
proof -
  have k: "geminiApiKey no_keys_app = []" "\<not> key_truthy (env_API_KEY plain_platform)"
    "claudeApiKey no_keys_app \<noteq> []" "items no_keys_app = []" "isSettingsOpen no_keys_app = False"
    by (simp_all add: no_keys_app_def plain_platform_def key_truthy_def)
  have ne: "three_files \<noteq> []" by (simp add: three_files_def)
  have d: "missing_claude_message \<noteq> missing_gemini_message" by code_simp
  note t = missing_credential_rejected [THEN conjunct1, rule_format]
  note h = missing_credential_rejected [THEN conjunct2, rule_format]
  have a: "handleFileChange plain_platform three_files no_keys_app
     = (no_keys_app
          \<lparr>items := map (\<lambda>f. (new_item f)\<lparr>status := ERROR, error := Some missing_gemini_message\<rparr>)
                        three_files,
           isSettingsOpen := True\<rparr>, [])"
  proof -
    obtain msg where m: "handleFileChange plain_platform three_files no_keys_app
           = (no_keys_app\<lparr>items := items no_keys_app
                            @ map (\<lambda>f. (new_item f)\<lparr>status := ERROR, error := Some msg\<rparr>) three_files,
                isSettingsOpen := (three_files \<noteq> [] \<or> isSettingsOpen no_keys_app)\<rparr>, [])"
      using h [of no_keys_app plain_platform three_files] k by auto
    have "error (hd (items (fst (handleFileChange plain_platform three_files no_keys_app))))
          = Some missing_gemini_message"
      by code_simp
    then have "msg = missing_gemini_message"
      using m k by (simp add: three_files_def)
    then show ?thesis using m k ne by simp
  qed
  have b: "translateItem plain_platform sample_item KOREAN GEMINI
        (no_keys_app\<lparr>items := [sample_item]\<rparr>, \<lparr>net = 0, log = []\<rparr>)
     = (no_keys_app\<lparr>items := [sample_item\<lparr>status := ERROR, error := Some missing_gemini_message\<rparr>],
                     isSettingsOpen := True\<rparr>, \<lparr>net = 0, log = []\<rparr>)"
  proof -
    obtain msg where m: "translateItem plain_platform sample_item KOREAN GEMINI
          (no_keys_app\<lparr>items := [sample_item]\<rparr>, \<lparr>net = 0::nat, log = []\<rparr>)
        = ((no_keys_app\<lparr>items := [sample_item]\<rparr>)
             \<lparr>items := updateItem (item_id sample_item)
                         (\<lambda>i. i\<lparr>status := ERROR, error := Some msg\<rparr>)
                         (items (no_keys_app\<lparr>items := [sample_item]\<rparr>)),
              isSettingsOpen := True\<rparr>, \<lparr>net = 0, log = []\<rparr>)"
      using t [of GEMINI "no_keys_app\<lparr>items := [sample_item]\<rparr>" plain_platform sample_item KOREAN
                  "\<lparr>net = 0::nat, log = []\<rparr>"] k
      by auto
    have "error (hd (items (fst (translateItem plain_platform sample_item KOREAN GEMINI
          (no_keys_app\<lparr>items := [sample_item]\<rparr>, \<lparr>net = 0::nat, log = []\<rparr>)))))
          = Some missing_gemini_message"
      by code_simp
    then have "msg = missing_gemini_message"
      using m by (simp add: updateItem_def)
    then show ?thesis using m by (simp add: updateItem_def)
  qed
  show ?thesis using a b k by (simp add: three_files_def)
qed


section \<open>The life of an item\<close>

lemma map_item_id_updateItem:
  "(\<And>x. item_id (f x) = item_id x) \<Longrightarrow> map item_id (updateItem i f xs) = map item_id xs"
  by (induction xs) (simp_all add: updateItem_def)

lemma in_set_updateItem:
  "y \<in> set (updateItem i f xs) \<Longrightarrow>
   \<exists>x \<in> set xs. y = (if item_id x = i then f x else x)"
  by (auto simp: updateItem_def)

lemma find_updateItem:
  "(\<And>x. item_id (f x) = item_id x) \<Longrightarrow>
   find (\<lambda>x. item_id x = j) (updateItem i f xs)
     = (if j = i then map_option f (find (\<lambda>x. item_id x = j) xs)
        else find (\<lambda>x. item_id x = j) xs)"
  by (induction xs) (auto simp: updateItem_def)

lemma find_append_items:
  "find Q (xs @ ys) = (case find Q xs of Some x \<Rightarrow> Some x | None \<Rightarrow> find Q ys)"
  by (induction xs) auto

lemma find_None_fresh:
  "j \<notin> item_id ` set xs \<Longrightarrow> find (\<lambda>x. item_id x = j) xs = None"
  by (induction xs) auto

lemma find_Some_distinct:
  "distinct (map item_id xs) \<Longrightarrow> x \<in> set xs \<Longrightarrow>
   find (\<lambda>y. item_id y = item_id x) xs = Some x"
  by (induction xs) (auto simp: image_iff)

lemma find_Some_id:
  "find (\<lambda>y. item_id y = i) xs = Some x \<Longrightarrow> x \<in> set xs \<and> item_id x = i"
  by (induction xs) (auto split: if_splits)

lemma find_filter_other:
  "find (\<lambda>x. item_id x = j) (filter (\<lambda>x. item_id x \<noteq> i) xs)
     = (if j = i then None else find (\<lambda>x. item_id x = j) xs)"
  by (induction xs) auto

lemma find_map_new:
  "find (\<lambda>x. item_id x = j) (map (\<lambda>f. g (new_item f)) files)
     = map_option (\<lambda>f. g (new_item f)) (find (\<lambda>f. fst f = j) files)"
  if "\<And>x. item_id (g x) = item_id x"
  using that by (induction files) (auto simp: new_item_def)

lemma find_fst_Some: "j \<in> fst ` set files \<Longrightarrow> \<exists>f. find (\<lambda>f. fst f = j) files = Some f"
  by (induction files) auto

lemma find_fst_None: "j \<notin> fst ` set files \<Longrightarrow> find (\<lambda>f. fst f = j) files = None"
  by (induction files) auto

lemma rejection_cases:
  obtains msg where "rejection P provider a = Some msg" | "rejection P provider a = None"
  by (cases "rejection P provider a") auto

lemma handleFileChange_dispatched:
  assumes "rejection P (modelProvider a) a = None"
    and "\<forall>f \<in> set files. fst f \<notin> item_id ` set (items a)"
  shows "handleFileChange P files a
     = (a\<lparr>items := items a @ map (\<lambda>f. (new_item f)\<lparr>status := ANALYZING, error := None\<rparr>) files\<rparr>,
        map new_item files)"
proof -
  let ?ns = "map new_item files"
  have r: "rejection P (modelProvider a) (a\<lparr>items := items a @ ?ns\<rparr>) = None"
    using assms(1) by simp
  have fresh: "\<forall>x \<in> set (items a). item_id x \<notin> item_id ` set ?ns"
    using assms(2) by force
  show ?thesis
    using start_all_dispatched [OF r, of ?ns]
          map_fresh_append [OF fresh, of "\<lambda>x. x\<lparr>status := ANALYZING, error := None\<rparr>"]
    by (simp add: handleFileChange_def Let_def comp_def)
qed

lemma handleRetry_found:
  assumes "find (\<lambda>x. item_id x = i) (items a) = Some item"
  shows "handleRetry P i a
     = (case rejection P (modelProvider a) a of
          Some msg \<Rightarrow>
            (a\<lparr>items := updateItem i (\<lambda>x. x\<lparr>status := ERROR, error := Some msg\<rparr>) (items a),
               isSettingsOpen := True\<rparr>, [])
        | None \<Rightarrow>
            (a\<lparr>items := updateItem i (\<lambda>x. x\<lparr>status := ANALYZING, error := None\<rparr>) (items a)\<rparr>,
             [item]))"
proof -
  have i: "item_id item = i" using find_Some_id [OF assms] by simp
  show ?thesis
  proof (cases rule: rejection_cases [of P "modelProvider a" a])
    case (1 msg)
    then show ?thesis
      using assms translateItem_start_rejected [OF 1, of item] i by (simp add: handleRetry_def)
  next
    case 2
    then show ?thesis
      using assms translateItem_start_dispatched [OF 2, of item] i by (simp add: handleRetry_def)
  qed
qed


lemma item_ok_new_rejected: "item_ok ((new_item f)\<lparr>status := ERROR, error := Some msg\<rparr>)"
  by (simp add: item_ok_def new_item_def)

lemma item_ok_new_dispatched: "item_ok ((new_item f)\<lparr>status := ANALYZING, error := None\<rparr>)"
  by (simp add: item_ok_def new_item_def)

lemma item_ok_retry:
  "item_ok x \<Longrightarrow> status x = ERROR \<Longrightarrow>
   item_ok (x\<lparr>status := ERROR, error := Some msg\<rparr>)
   \<and> item_ok (x\<lparr>status := ANALYZING, error := None\<rparr>)"
  by (simp add: item_ok_def)

lemma item_ok_settle:
  "item_ok x \<Longrightarrow> status x = ANALYZING \<Longrightarrow>
   item_ok (x\<lparr>status := SUCCESS, result := Some t\<rparr>)
   \<and> item_ok (x\<lparr>status := ERROR, error := Some m\<rparr>)"
  by (simp add: item_ok_def)

lemma config_ok_add:
  assumes ok: "config_ok c" and st: "step P (AddFiles files) c = Some c'"
  shows "config_ok c'"
proof -
  let ?a = "app c"
  have g: "distinct (map fst files)"
    "\<forall>i \<in> fst ` set files. i \<notin> item_id ` set (items ?a) \<and> i \<notin> set (inflight c)"
    using st by (auto split: if_splits)
  have fresh: "\<forall>f \<in> set files. fst f \<notin> item_id ` set (items ?a)"
    using g(2) by auto
  have disj: "set (map item_id (items ?a)) \<inter> set (map fst files) = {}"
    using g(2) by force
  have fresh2: "\<And>x b. x \<in> set (items ?a) \<Longrightarrow> (item_id x, b) \<notin> set files"
    using g(2) by force
  show ?thesis
  proof (cases rule: rejection_cases [of P "modelProvider ?a" ?a])
    case (1 msg)
    have c': "c' = \<lparr>app = ?a\<lparr>items := items ?a
                       @ map (\<lambda>f. (new_item f)\<lparr>status := ERROR, error := Some msg\<rparr>) files,
                     isSettingsOpen := (files \<noteq> [] \<or> isSettingsOpen ?a)\<rparr>,
                  inflight = inflight c\<rparr>"
      using st handleFileChange_rejected [OF 1 fresh] by (auto split: if_splits)
    have "map item_id (items (app c')) = map item_id (items ?a) @ map fst files"
      using c' by (simp add: comp_def new_item_def)
    then have d: "distinct (map item_id (items (app c')))"
      using ok g(1) disj by (simp add: config_ok_def)
    have i: "\<forall>x \<in> set (items (app c')).
               item_ok x \<and> (item_id x \<in> set (inflight c') \<longrightarrow> status x = ANALYZING)"
      using ok g(2) c' by (auto simp: config_ok_def item_ok_new_rejected)
    show ?thesis using ok d i c' by (simp add: config_ok_def)
  next
    case 2
    have c': "c' = \<lparr>app = ?a\<lparr>items := items ?a
                       @ map (\<lambda>f. (new_item f)\<lparr>status := ANALYZING, error := None\<rparr>) files\<rparr>,
                  inflight = inflight c @ map fst files\<rparr>"
      using st handleFileChange_dispatched [OF 2 fresh] by (auto simp: comp_def split: if_splits)
    have "map item_id (items (app c')) = map item_id (items ?a) @ map fst files"
      using c' by (simp add: comp_def new_item_def)
    then have d: "distinct (map item_id (items (app c')))"
      using ok g(1) disj by (simp add: config_ok_def)
    have "set (inflight c) \<inter> set (map fst files) = {}"
      using g(2) by force
    then have d2: "distinct (inflight c')"
      using ok g(1) c' by (simp add: config_ok_def)
    have i: "\<forall>x \<in> set (items (app c')).
               item_ok x \<and> (item_id x \<in> set (inflight c') \<longrightarrow> status x = ANALYZING)"
      using ok g(2) c' fresh2 by (auto simp: config_ok_def item_ok_new_dispatched)
    show ?thesis using d d2 i by (simp add: config_ok_def)
  qed
qed

lemma config_ok_retry:
  assumes ok: "config_ok c" and st: "step P (Retry i) c = Some c'"
  shows "config_ok c'"
proof -
  let ?a = "app c"
  obtain x where x: "x \<in> set (items ?a)" "item_id x = i" "status x = ERROR"
    using st by (auto split: if_splits)
  have dist: "distinct (map item_id (items ?a))" using ok by (simp add: config_ok_def)
  have f: "find (\<lambda>y. item_id y = i) (items ?a) = Some x"
    using find_Some_distinct [OF dist x(1)] x(2) by simp
  have notin: "i \<notin> set (inflight c)"
    using ok x by (auto simp: config_ok_def)
  have only: "\<forall>y \<in> set (items ?a). item_id y = i \<longrightarrow> y = x"
    using dist x(1,2) by (metis distinct_map inj_onD)
  show ?thesis
  proof (cases rule: rejection_cases [of P "modelProvider ?a" ?a])
    case (1 msg)
    have c': "c' = \<lparr>app = ?a\<lparr>items := updateItem i (\<lambda>x. x\<lparr>status := ERROR, error := Some msg\<rparr>)
                                          (items ?a),
                     isSettingsOpen := True\<rparr>,
                  inflight = inflight c\<rparr>"
      using st handleRetry_found [OF f, of P] 1 by (auto split: if_splits)
    have d: "map item_id (items (app c')) = map item_id (items ?a)"
      using c' by (simp add: map_item_id_updateItem)
    have i: "\<forall>y \<in> set (items (app c')).
               item_ok y \<and> (item_id y \<in> set (inflight c') \<longrightarrow> status y = ANALYZING)"
    proof
      fix y assume "y \<in> set (items (app c'))"
      then obtain z where z: "z \<in> set (items ?a)"
          "y = (if item_id z = i then z\<lparr>status := ERROR, error := Some msg\<rparr> else z)"
        using c' in_set_updateItem by fastforce
      show "item_ok y \<and> (item_id y \<in> set (inflight c') \<longrightarrow> status y = ANALYZING)"
      proof (cases "item_id z = i")
        case True
        then have "z = x" using only z(1) by simp
        then show ?thesis
          using z(2) True x(3) ok x(1) notin c' item_ok_retry [of x msg]
          by (simp add: config_ok_def)
      next
        case False
        then show ?thesis using z ok c' by (simp add: config_ok_def)
      qed
    qed
    show ?thesis using ok d i c' by (simp add: config_ok_def)
  next
    case 2
    have c': "c' = \<lparr>app = ?a\<lparr>items := updateItem i (\<lambda>x. x\<lparr>status := ANALYZING, error := None\<rparr>)
                                          (items ?a)\<rparr>,
                  inflight = inflight c @ [i]\<rparr>"
      using st handleRetry_found [OF f, of P] 2 x(2) by (auto split: if_splits)
    have d: "map item_id (items (app c')) = map item_id (items ?a)"
      using c' by (simp add: map_item_id_updateItem)
    have d2: "distinct (inflight c')"
      using ok notin c' by (simp add: config_ok_def)
    have i: "\<forall>y \<in> set (items (app c')).
               item_ok y \<and> (item_id y \<in> set (inflight c') \<longrightarrow> status y = ANALYZING)"
    proof
      fix y assume "y \<in> set (items (app c'))"
      then obtain z where z: "z \<in> set (items ?a)"
          "y = (if item_id z = i then z\<lparr>status := ANALYZING, error := None\<rparr> else z)"
        using c' in_set_updateItem by fastforce
      show "item_ok y \<and> (item_id y \<in> set (inflight c') \<longrightarrow> status y = ANALYZING)"
      proof (cases "item_id z = i")
        case True
        then have "z = x" using only z(1) by simp
        then show ?thesis
          using z(2) True x(3) ok x(1) item_ok_retry [of x msg]
          by (simp add: config_ok_def)
      next
        case False
        then show ?thesis using z ok c' by (simp add: config_ok_def)
      qed
    qed
    show ?thesis using ok d d2 i by (simp add: config_ok_def)
  qed
qed

lemma config_ok_settle:
  assumes ok: "config_ok c" and st: "step P (Settle i outcome) c = Some c'"
  shows "config_ok c'"
proof -
  let ?a = "app c"
  have inf: "i \<in> set (inflight c)" using st by (auto split: if_splits)
  obtain h where h: "items (app c') = updateItem i h (items ?a)"
      "\<And>x. item_id (h x) = item_id x"
      "\<And>x. item_ok x \<Longrightarrow> status x = ANALYZING \<Longrightarrow> item_ok (h x)"
      and inf': "inflight c' = remove1 i (inflight c)"
  proof (cases outcome)
    case (Inl e)
    let ?m = "if err_is_Error e then err_message e else ''Translation failed''"
    show ?thesis
      using st inf Inl item_ok_settle
      by (intro that [of "\<lambda>x. x\<lparr>status := ERROR, error := Some ?m\<rparr>"])
         (auto simp: translateItem_finish_def)
  next
    case (Inr t)
    show ?thesis
      using st inf Inr item_ok_settle
      by (intro that [of "\<lambda>x. x\<lparr>status := SUCCESS, result := Some t\<rparr>"])
         (auto simp: translateItem_finish_def)
  qed
  have d: "distinct (map item_id (items (app c')))"
    using ok h(1,2) by (simp add: map_item_id_updateItem config_ok_def)
  have d2: "distinct (inflight c')" using ok inf' by (simp add: config_ok_def)
  have out: "i \<notin> set (inflight c')"
    using ok inf' by (simp add: config_ok_def)
  have i: "\<forall>y \<in> set (items (app c')).
             item_ok y \<and> (item_id y \<in> set (inflight c') \<longrightarrow> status y = ANALYZING)"
  proof
    fix y assume "y \<in> set (items (app c'))"
    then obtain z where z: "z \<in> set (items ?a)" "y = (if item_id z = i then h z else z)"
      using h(1) in_set_updateItem by fastforce
    have zok: "item_ok z" "item_id z \<in> set (inflight c) \<longrightarrow> status z = ANALYZING"
      using ok z(1) by (auto simp: config_ok_def)
    show "item_ok y \<and> (item_id y \<in> set (inflight c') \<longrightarrow> status y = ANALYZING)"
    proof (cases "item_id z = i")
      case True
      then show ?thesis using z(2) zok inf h(2,3) out by simp
    next
      case False
      then show ?thesis
        using z(2) zok inf' by (auto dest: notin_set_remove1)
    qed
  qed
  show ?thesis using d d2 i by (simp add: config_ok_def)
qed

lemma config_ok_step:
  assumes ok: "config_ok c" and st: "step P act c = Some c'"
  shows "config_ok c'"
proof (cases act)
  case (AddFiles files)
  then show ?thesis using config_ok_add ok st by blast
next
  case (Retry i)
  then show ?thesis using config_ok_retry ok st by blast
next
  case (Settle i outcome)
  then show ?thesis using config_ok_settle ok st by blast
next
  case (Remove i)
  then show ?thesis
    using ok st by (auto simp: config_ok_def handleRemove_def distinct_map_filter)
next
  case ClearAll
  then show ?thesis using ok st by (auto simp: config_ok_def handleClearAll_def)
next
  case (SetSourceLang l)
  then show ?thesis using ok st by (auto simp: config_ok_def)
next
  case (SetModelProvider m)
  then show ?thesis using ok st by (auto simp: config_ok_def)
next
  case (SaveSettings cKey cModelId gKey gProKey)
  then show ?thesis using ok st by (auto simp: config_ok_def handleSaveSettings_def)
next
  case (SetSettingsOpen b)
  then show ?thesis using ok st by (auto simp: config_ok_def)
qed

lemma config_ok_run: "config_ok c \<Longrightarrow> run P acts c = Some c' \<Longrightarrow> config_ok c'"
proof (induction acts arbitrary: c)
  case Nil
  then show ?case by simp
next
  case (Cons act acts)
  then obtain c1 where c1: "step P act c = Some c1" "run P acts c1 = Some c'"
    by (auto split: option.splits)
  show ?case using Cons.IH [OF config_ok_step [OF Cons.prems(1) c1(1)] c1(2)] .
qed

lemma config_ok_initial: "initial c \<Longrightarrow> config_ok c"
  by (simp add: initial_def config_ok_def)


lemma status_after_add:
  assumes "\<And>x. item_id (h x) = item_id x"
  shows "map_option status (find (\<lambda>x. item_id x = i) (xs @ map (\<lambda>f. h (new_item f)) files))
     = (case find (\<lambda>x. item_id x = i) xs of
          Some x \<Rightarrow> Some (status x)
        | None \<Rightarrow> map_option (\<lambda>f. status (h (new_item f))) (find (\<lambda>f. fst f = i) files))"
proof (cases "find (\<lambda>x. item_id x = i) xs")
  case None
  have "find (\<lambda>x. item_id x = i) (map (\<lambda>f. h (new_item f)) files)
        = map_option (\<lambda>f. h (new_item f)) (find (\<lambda>f. fst f = i) files)"
    using assms by (rule find_map_new)
  then show ?thesis
    using None by (simp add: find_append_items option.map_comp comp_def)
next
  case (Some x)
  then show ?thesis by (simp add: find_append_items)
qed

lemma status_change_same: "status_of c' i = status_of c i \<Longrightarrow> status_change act i c c'"
  unfolding status_change_def by (rule disjI1)

lemma status_change_added:
  assumes "status_of c i = None" "i \<in> fst ` set files"
    and "status_of c' i = Some ANALYZING \<and> i \<in> set (inflight c')
         \<or> status_of c' i = Some ERROR \<and> i \<notin> set (inflight c')"
  shows "status_change (AddFiles files) i c c'"
proof -
  have "\<exists>fs. AddFiles files = AddFiles fs \<and> i \<in> fst ` set fs"
    using assms(2) by (intro exI [of _ files]) simp
  then have X: "status_of c i = None \<and> (\<exists>fs. AddFiles files = AddFiles fs \<and> i \<in> fst ` set fs)
           \<and> (status_of c' i = Some ANALYZING \<and> i \<in> set (inflight c')
                \<or> status_of c' i = Some ERROR \<and> i \<notin> set (inflight c'))"
    using assms(1,3) by (intro conjI)
  show ?thesis
    unfolding status_change_def
    by (rule disjI2, rule disjI2, rule disjI2, rule disjI1) (rule X)
qed

lemma add_guard:
  assumes "step P (AddFiles files) c = Some c'"
  shows "\<forall>j \<in> fst ` set files. j \<notin> item_id ` set (items (app c)) \<and> j \<notin> set (inflight c)"
    and "c' = \<lparr>app = fst (handleFileChange P files (app c)),
               inflight = inflight c @ map item_id (snd (handleFileChange P files (app c)))\<rparr>"
  using assms by (auto simp: case_prod_beta split: if_splits)

lemma status_change_add_aux:
  assumes its: "items (app c') = items (app c) @ map (\<lambda>f. h (new_item f)) files"
    and hid: "\<And>x. item_id (h x) = item_id x"
    and fresh: "\<forall>j \<in> fst ` set files. j \<notin> set (inflight c)"
    and kind: "(\<forall>x. status (h x) = ANALYZING) \<and> inflight c' = inflight c @ map fst files
       \<or> (\<forall>x. status (h x) = ERROR) \<and> inflight c' = inflight c"
  shows "status_change (AddFiles files) i c c'"
proof -
  have after: "status_of c' i
     = (case find (\<lambda>x. item_id x = i) (items (app c)) of
          Some x \<Rightarrow> Some (status x)
        | None \<Rightarrow> map_option (\<lambda>f. status (h (new_item f))) (find (\<lambda>f. fst f = i) files))"
    unfolding status_of_def its using hid by (rule status_after_add)
  show ?thesis
  proof (cases "find (\<lambda>x. item_id x = i) (items (app c))")
    case (Some x)
    then have "status_of c' i = status_of c i"
      using after by (simp add: status_of_def)
    then show ?thesis by (rule status_change_same)
  next
    case None
    then have old: "status_of c i = None" by (simp add: status_of_def)
    have new: "status_of c' i
        = map_option (\<lambda>f. status (h (new_item f))) (find (\<lambda>f. fst f = i) files)"
      using None after by simp
    show ?thesis
    proof (cases "i \<in> fst ` set files")
      case True
      obtain f where f: "find (\<lambda>f. fst f = i) files = Some f"
        using find_fst_Some [OF True] ..
      have ni: "i \<notin> set (inflight c)" by (rule bspec [OF fresh True])
      have s': "status_of c' i = Some (status (h (new_item f)))"
        using new f by simp
      have "status_of c' i = Some ANALYZING \<and> i \<in> set (inflight c')
                \<or> status_of c' i = Some ERROR \<and> i \<notin> set (inflight c')"
      proof (rule disjE [OF kind])
        assume a: "(\<forall>x. status (h x) = ANALYZING) \<and> inflight c' = inflight c @ map fst files"
        then have "status_of c' i = Some ANALYZING" using s' by simp
        moreover have "i \<in> set (inflight c')" using a True by simp
        ultimately show ?thesis by (intro disjI1 conjI)
      next
        assume a: "(\<forall>x. status (h x) = ERROR) \<and> inflight c' = inflight c"
        then have "status_of c' i = Some ERROR" using s' by simp
        moreover have "i \<notin> set (inflight c')" using a ni by simp
        ultimately show ?thesis by (intro disjI2 conjI)
      qed
      with old True show ?thesis by (rule status_change_added)
    next
      case False
      then have "status_of c' i = None" using new find_fst_None [of i files] by simp
      then have "status_of c' i = status_of c i" using old by simp
      then show ?thesis by (rule status_change_same)
    qed
  qed
qed

lemma status_change_add:
  assumes ok: "config_ok c" and st: "step P (AddFiles files) c = Some c'"
  shows "status_change (AddFiles files) i c c'"
proof -
  let ?a = "app c"
  note g = add_guard [OF st]
  have fresh: "\<forall>f \<in> set files. fst f \<notin> item_id ` set (items ?a)"
    using g(1) by simp
  have inf: "\<forall>j \<in> fst ` set files. j \<notin> set (inflight c)"
    using g(1) by simp
  show ?thesis
  proof (cases rule: rejection_cases [of P "modelProvider ?a" ?a])
    case (1 msg)
    have "items (app c') = items ?a
            @ map (\<lambda>f. (new_item f)\<lparr>status := ERROR, error := Some msg\<rparr>) files"
      and "inflight c' = inflight c"
      using g(2) handleFileChange_rejected [OF 1 fresh] by simp_all
    then show ?thesis
      using inf
      by (intro status_change_add_aux [where h = "\<lambda>x. x\<lparr>status := ERROR, error := Some msg\<rparr>"])
         simp_all
  next
    case 2
    have "items (app c') = items ?a
            @ map (\<lambda>f. (new_item f)\<lparr>status := ANALYZING, error := None\<rparr>) files"
      and "inflight c' = inflight c @ map fst files"
      using g(2) handleFileChange_dispatched [OF 2 fresh] by (simp_all add: comp_def)
    then show ?thesis
      using inf
      by (intro status_change_add_aux
                  [where h = "\<lambda>x. x\<lparr>status := ANALYZING, error := None\<rparr>"])
         simp_all
  qed
qed

lemma status_change_retry:
  assumes ok: "config_ok c" and st: "step P (Retry j) c = Some c'"
  shows "status_change (Retry j) i c c'"
proof -
  let ?a = "app c"
  obtain x where x: "x \<in> set (items ?a)" "item_id x = j" "status x = ERROR"
    using st by (auto split: if_splits)
  have dist: "distinct (map item_id (items ?a))" using ok by (simp add: config_ok_def)
  have f: "find (\<lambda>y. item_id y = j) (items ?a) = Some x"
    using find_Some_distinct [OF dist x(1)] x(2) by simp
  obtain h where h: "items (app c') = updateItem j h (items ?a)"
      "\<And>x. item_id (h x) = item_id x"
      "(\<forall>x. status (h x) = ANALYZING) \<and> j \<in> set (inflight c') \<or> (\<forall>x. status (h x) = ERROR)"
  proof (cases rule: rejection_cases [of P "modelProvider ?a" ?a])
    case (1 msg)
    show ?thesis
      using st handleRetry_found [OF f, of P] 1
      by (intro that [of "\<lambda>x. x\<lparr>status := ERROR, error := Some msg\<rparr>"])
         (auto split: if_splits)
  next
    case 2
    show ?thesis
      using st handleRetry_found [OF f, of P] 2 x(2)
      by (intro that [of "\<lambda>x. x\<lparr>status := ANALYZING, error := None\<rparr>"])
         (auto split: if_splits)
  qed
  show ?thesis
  proof (cases "i = j")
    case True
    have "status_of c i = Some ERROR" using f x(3) True by (simp add: status_of_def)
    moreover have "status_of c' i = Some (status (h x))"
      using f True h(1) find_updateItem [of h j j "items ?a"] h(2) by (simp add: status_of_def)
    ultimately show ?thesis using h(3) True by (auto simp: status_change_def)
  next
    case False
    then have "status_of c' i = status_of c i"
      using h(1) find_updateItem [of h i j "items ?a"] h(2) by (simp add: status_of_def)
    then show ?thesis by (simp add: status_change_def)
  qed
qed

lemma status_change_settle:
  assumes ok: "config_ok c" and st: "step P (Settle j outcome) c = Some c'"
  shows "status_change (Settle j outcome) i c c'"
proof -
  let ?a = "app c"
  have inf: "j \<in> set (inflight c)" using st by (auto split: if_splits)
  obtain h where h: "items (app c') = updateItem j h (items ?a)"
      "\<And>x. item_id (h x) = item_id x"
      "(\<forall>x. status (h x) = SUCCESS) \<or> (\<forall>x. status (h x) = ERROR)"
  proof (cases outcome)
    case (Inl e)
    let ?m = "if err_is_Error e then err_message e else ''Translation failed''"
    show ?thesis
      using st inf Inl
      by (intro that [of "\<lambda>x. x\<lparr>status := ERROR, error := Some ?m\<rparr>"])
         (auto simp: translateItem_finish_def)
  next
    case (Inr t)
    show ?thesis
      using st inf Inr
      by (intro that [of "\<lambda>x. x\<lparr>status := SUCCESS, result := Some t\<rparr>"])
         (auto simp: translateItem_finish_def)
  qed
  show ?thesis
  proof (cases "i = j")
    case True
    show ?thesis
    proof (cases "find (\<lambda>y. item_id y = j) (items ?a)")
      case None
      then have "status_of c' i = status_of c i"
        using True h(1) find_updateItem [of h j j "items ?a"] h(2) by (simp add: status_of_def)
      then show ?thesis by (simp add: status_change_def)
    next
      case (Some x)
      then have "x \<in> set (items ?a)" "item_id x = j" using find_Some_id by fastforce+
      then have "status x = ANALYZING" using ok inf by (auto simp: config_ok_def)
      then have "status_of c i = Some ANALYZING" using Some True by (simp add: status_of_def)
      moreover have "status_of c' i = Some (status (h x))"
        using Some True h(1) find_updateItem [of h j j "items ?a"] h(2)
        by (simp add: status_of_def)
      ultimately show ?thesis using h(3) True by (auto simp: status_change_def)
    qed
  next
    case False
    then have "status_of c' i = status_of c i"
      using h(1) find_updateItem [of h i j "items ?a"] h(2) by (simp add: status_of_def)
    then show ?thesis by (simp add: status_change_def)
  qed
qed

lemma status_change_step:
  assumes ok: "config_ok c" and st: "step P act c = Some c'"
  shows "status_change act i c c'"
proof (cases act)
  case (AddFiles files)
  then show ?thesis using status_change_add ok st by blast
next
  case (Retry j)
  then show ?thesis using status_change_retry ok st by blast
next
  case (Settle j outcome)
  then show ?thesis using status_change_settle ok st by blast
next
  case (Remove j)
  then have "status_of c' i = (if i = j then None else status_of c i)"
    using st by (auto simp: status_of_def handleRemove_def find_filter_other)
  then show ?thesis using Remove by (auto simp: status_change_def)
next
  case ClearAll
  then have "status_of c' i = None"
    using st by (auto simp: status_of_def handleClearAll_def)
  then show ?thesis using ClearAll by (simp add: status_change_def)
next
  case (SetSourceLang l)
  then show ?thesis using st by (auto simp: status_change_def status_of_def)
next
  case (SetModelProvider m)
  then show ?thesis using st by (auto simp: status_change_def status_of_def)
next
  case (SaveSettings cKey cModelId gKey gProKey)
  then show ?thesis using st by (auto simp: status_change_def status_of_def handleSaveSettings_def)
next
  case (SetSettingsOpen b)
  then show ?thesis using st by (auto simp: status_change_def status_of_def)
qed


lemma item_ok_fields:
  "item_ok x \<Longrightarrow>
   (result x \<noteq> None) = (status x = SUCCESS) \<and> (error x \<noteq> None) = (status x = ERROR)"
  by (cases "status x") (simp_all add: item_ok_def)

text \<open>
  C9: in every configuration the component reaches from its start by the actions of
  the page and by requests settling, each item has a result exactly when it is in
  \<open>SUCCESS\<close> and an error exactly when it is in \<open>ERROR\<close>, so outside \<open>IDLE\<close> and
  \<open>ANALYZING\<close> exactly one of the two is there; an item whose run is under way is in
  \<open>ANALYZING\<close>; and every action changes the status of an item along
  \<open>IDLE\<close> or \<open>ERROR\<close>, then \<open>ANALYZING\<close>, then \<open>SUCCESS\<close> or \<open>ERROR\<close> only:
  \<open>ANALYZING\<close> is entered when the item is made and started, or by a retry from
  \<open>ERROR\<close>, and left when the request settles. A start that is refused for a
  missing credential is no attempt: it puts the item in \<open>ERROR\<close> with no run.
\<close>

theorem item_lifecycle:
  "initial c0 \<and> run P acts c0 = Some c \<longrightarrow>
     (\<forall>x \<in> set (items (app c)).
        (result x \<noteq> None) = (status x = SUCCESS)
        \<and> (error x \<noteq> None) = (status x = ERROR)
        \<and> (item_id x \<in> set (inflight c) \<longrightarrow> status x = ANALYZING))
     \<and> (\<forall>act c' i. step P act c = Some c' \<longrightarrow> status_change act i c c')
     \<and> (\<forall>f. status (new_item f) = IDLE \<and> result (new_item f) = None \<and> error (new_item f) = None)"
proof (rule impI, elim conjE)
  assume "initial c0" and r: "run P acts c0 = Some c"
  then have ok: "config_ok c"
    using config_ok_run [OF config_ok_initial] by blast
  have a: "\<forall>x \<in> set (items (app c)).
        (result x \<noteq> None) = (status x = SUCCESS)
        \<and> (error x \<noteq> None) = (status x = ERROR)
        \<and> (item_id x \<in> set (inflight c) \<longrightarrow> status x = ANALYZING)"
  proof
    fix x assume x: "x \<in> set (items (app c))"
    then have "item_ok x" "item_id x \<in> set (inflight c) \<longrightarrow> status x = ANALYZING"
      using ok by (simp_all add: config_ok_def)
    then show "(result x \<noteq> None) = (status x = SUCCESS)
        \<and> (error x \<noteq> None) = (status x = ERROR)
        \<and> (item_id x \<in> set (inflight c) \<longrightarrow> status x = ANALYZING)"
      using item_ok_fields [of x] by simp
  qed
  have b: "\<forall>act c' i. step P act c = Some c' \<longrightarrow> status_change act i c c'"
    by (intro allI impI) (rule status_change_step [OF ok])
  have n: "\<forall>f. status (new_item f) = IDLE \<and> result (new_item f) = None \<and> error (new_item f) = None"
    by (simp add: new_item_def)
  show "(\<forall>x \<in> set (items (app c)).
        (result x \<noteq> None) = (status x = SUCCESS)
        \<and> (error x \<noteq> None) = (status x = ERROR)
        \<and> (item_id x \<in> set (inflight c) \<longrightarrow> status x = ANALYZING))
     \<and> (\<forall>act c' i. step P act c = Some c' \<longrightarrow> status_change act i c c')
     \<and> (\<forall>f. status (new_item f) = IDLE \<and> result (new_item f) = None \<and> error (new_item f) = None)"
    using a b n by (intro conjI)
qed

theorem item_lifecycle_witness:
  "initial sample_start
   \<and> map_option (\<lambda>c. (map status (items (app c)), inflight c))
        (run plain_platform sample_run sample_start)
      = Some ([SUCCESS, ERROR, ANALYZING], [''id-3''])
   \<and> list_all (\<lambda>x. (result x \<noteq> None) = (status x = SUCCESS)
                       \<and> (error x \<noteq> None) = (status x = ERROR))
        (items (app (the (run plain_platform sample_run sample_start))))
   \<and> status_change (Retry ''id-2'') ''id-2''
        (the (run plain_platform sample_run sample_start))
        (the (step plain_platform (Retry ''id-2'')
                (the (run plain_platform sample_run sample_start))))
   \<and> status_of (the (run plain_platform sample_run sample_start)) ''id-2'' = Some ERROR
   \<and> status_of (the (step plain_platform (Retry ''id-2'')
                       (the (run plain_platform sample_run sample_start)))) ''id-2''
      = Some ANALYZING"
proof -
  let ?c = "the (run plain_platform sample_run sample_start)"
  let ?c' = "the (step plain_platform (Retry ''id-2'') ?c)"
  have i: "initial sample_start" by code_simp
  have r: "run plain_platform sample_run sample_start = Some ?c" by code_simp
  have s: "step plain_platform (Retry ''id-2'') ?c = Some ?c'" by code_simp
  have v: "map_option (\<lambda>c. (map status (items (app c)), inflight c))
        (run plain_platform sample_run sample_start)
      = Some ([SUCCESS, ERROR, ANALYZING], [''id-3''])"
    by code_simp
  have b: "status_of ?c ''id-2'' = Some ERROR" by code_simp
  have a: "status_of ?c' ''id-2'' = Some ANALYZING" by code_simp
  note t = item_lifecycle [of sample_start plain_platform sample_run ?c, rule_format, OF conjI [OF i r]]
  have "\<forall>x \<in> set (items (app ?c)).
         (result x \<noteq> None) = (status x = SUCCESS) \<and> (error x \<noteq> None) = (status x = ERROR)"
    using t by blast
  then have t1: "list_all (\<lambda>x. (result x \<noteq> None) = (status x = SUCCESS)
                       \<and> (error x \<noteq> None) = (status x = ERROR)) (items (app ?c))"
    by (simp add: list_all_iff)
  have t2: "status_change (Retry ''id-2'') ''id-2'' ?c ?c'"
    using t s by blast
  show ?thesis using i v t1 t2 b a by (intro conjI)
qed

text \<open>
  \<open>handleRetry\<close> itself does not look at the status of the item; the page calls it
  for items in \<open>ERROR\<close> only. Called for an item in \<open>SUCCESS\<close>, it would start a
  run whose failure leaves the item in \<open>ERROR\<close> with the old result still there.
\<close>

lemma handleRetry_outside_the_page:
  "map (\<lambda>x. (status x, result x \<noteq> None, error x \<noteq> None))
     (items (translateItem_finish ''a1'' (Inl (new_Error ''Failed to process image. Please try again.''))
        (fst (handleRetry plain_platform ''a1''
           (sample_app\<lparr>items :=
              [sample_item\<lparr>status := SUCCESS,
                 result := Some \<lparr>detectedLanguage = JString ''Korean'', segments = []\<rparr>\<rparr>]\<rparr>)))))
   = [(ERROR, True, True)]"
  by code_simp

end
